theory Spec2Isabelle
  imports Main "HOL-Library.AList" "HOL-Library.Char_ord" "HOL-Library.List_Lexorder"
begin

unbundle bit_operations_syntax

section \<open>JSON documents\<close>

text \<open>
  A card, a ruleset and every value inside them is a JSON value as \<open>json.load\<close> builds it.
  A mapping is an association list in insertion order, as a Python \<open>dict\<close> keeps it;
  a lookup reads the first entry of a key.  Numbers are integers: floating-point numbers are
  not part of the model.  Strings are byte strings (the UTF-8 encoding of the text).
\<close>

datatype json =
    JNull
  | JBool bool
  | JInt int
  | JStr string
  | JList "json list"
  | JDict "(string \<times> json) list"

type_synonym dict = "(string \<times> json) list"

definition has_key :: "dict \<Rightarrow> string \<Rightarrow> bool" where
  "has_key d k = (map_of d k \<noteq> None)"

section \<open>Canonicalizer: \<open>normalize_card_v3\<close> (core/utils/data.py)\<close>

text \<open>
  The source rewrites the card in place and returns it; the model returns the card as it is
  after the call.  The function works on two objects, the root mapping and the mapping under
  \<open>data\<close> (the root's own entry when that is a mapping, a fresh copy of the root without
  \<open>spec\<close>, \<open>spec_version\<close> and \<open>data\<close> otherwise).  The steps pass the pair along, and the
  last step stores the \<open>data\<close> mapping back under its key.  Nothing below the two mappings is
  written, so sharing of nested values between them is not observable.
\<close>

definition core_fields :: "string list" where
  "core_fields =
     [''name'', ''description'', ''personality'', ''scenario'', ''first_mes'', ''mes_example'',
      ''creator_notes'', ''system_prompt'', ''post_history_instructions'', ''tags'',
      ''creator'', ''character_version'', ''alternate_greetings'', ''extensions'',
      ''character_book'']"

definition key_mapping :: "(string \<times> string) list" where
  "key_mapping = [(''creatorcomment'', ''creator_notes'')]"

fun find_root_key :: "(string \<times> string) list \<Rightarrow> string \<Rightarrow> string" where
  "find_root_key [] field = field"
| "find_root_key ((old_k, new_k) # rest) field =
     (if new_k = field then old_k else find_root_key rest field)"

definition root_val :: "dict \<Rightarrow> string \<Rightarrow> json" where
  "root_val root field =
     (case map_of root (find_root_key key_mapping field) of
        Some v \<Rightarrow> v
      | None \<Rightarrow> (case map_of root field of Some v \<Rightarrow> v | None \<Rightarrow> JNull))"

definition sync_field :: "dict \<Rightarrow> dict \<Rightarrow> string \<Rightarrow> dict" where
  "sync_field root data_block field =
     (if \<not> has_key data_block field \<and> root_val root field \<noteq> JNull
      then AList.update field (root_val root field) data_block
      else data_block)"

definition strip_root_keys :: "dict \<Rightarrow> dict" where
  "strip_root_keys d = AList.delete ''data'' (AList.delete ''spec_version'' (AList.delete ''spec'' d))"

definition ensure_data :: "dict \<Rightarrow> dict" where
  "ensure_data root =
     (case map_of root ''data'' of
        Some (JDict d) \<Rightarrow> root
      | _ \<Rightarrow> AList.update ''data'' (JDict (strip_root_keys root)) root)"

definition data_block_of :: "dict \<Rightarrow> dict" where
  "data_block_of root = (case map_of root ''data'' of Some (JDict d) \<Rightarrow> d | _ \<Rightarrow> [])"

fun relocate :: "string \<Rightarrow> dict \<times> dict \<Rightarrow> dict \<times> dict" where
  "relocate k (root, data_block) =
     (case map_of root k of
        None \<Rightarrow> (root, data_block)
      | Some v \<Rightarrow>
          (AList.delete k root,
           if has_key data_block k then data_block else AList.update k v data_block))"

definition with_headers :: "dict \<Rightarrow> dict \<times> dict" where
  "with_headers root =
     (AList.update ''spec_version'' (JStr ''3.0'')
        (AList.update ''spec'' (JStr ''chara_card_v3'') root),
      data_block_of root)"

fun sync_core_fields :: "dict \<times> dict \<Rightarrow> dict \<times> dict" where
  "sync_core_fields (root, data_block) = (root, foldl (sync_field root) data_block core_fields)"

fun write_back :: "dict \<times> dict \<Rightarrow> dict" where
  "write_back (root, data_block) = AList.update ''data'' (JDict (strip_root_keys data_block)) root"

definition normalize_dict :: "dict \<Rightarrow> dict" where
  "normalize_dict root =
     write_back (relocate ''extensions'' (relocate ''character_book''
       (sync_core_fields (with_headers (ensure_data root)))))"

fun normalize_card_v3 :: "json \<Rightarrow> json" where
  "normalize_card_v3 (JDict root) = JDict (normalize_dict root)"
| "normalize_card_v3 j = j"

section \<open>Python built-ins used by the sources\<close>

function str_of_nat :: "nat \<Rightarrow> string" where
  "str_of_nat n =
     (if n < 10 then [''0123456789'' ! n]
      else str_of_nat (n div 10) @ [''0123456789'' ! (n mod 10)])"
  by pat_completeness auto

termination
  by (relation "measure id") auto

declare str_of_nat.simps [simp del]

definition str_of_int :: "int \<Rightarrow> string" where
  "str_of_int i = (if i < 0 then CHR ''-'' # str_of_nat (nat (- i)) else str_of_nat (nat i))"

fun truthy :: "json \<Rightarrow> bool" where
  "truthy JNull = False"
| "truthy (JBool b) = b"
| "truthy (JInt i) = (i \<noteq> 0)"
| "truthy (JStr s) = (s \<noteq> [])"
| "truthy (JList xs) = (xs \<noteq> [])"
| "truthy (JDict d) = (d \<noteq> [])"

fun starts_with :: "string \<Rightarrow> string \<Rightarrow> bool" where
  "starts_with s [] = True"
| "starts_with [] (p # ps) = False"
| "starts_with (c # cs) (p # ps) = (c = p \<and> starts_with cs ps)"

fun str_contains :: "string \<Rightarrow> string \<Rightarrow> bool" where
  "str_contains [] sub = (sub = [])"
| "str_contains (c # cs) sub = (starts_with (c # cs) sub \<or> str_contains cs sub)"

text \<open>
  The exceptions the sources can raise on JSON values; \<open>LibraryError\<close> stands for what a
  library call taken as a parameter raises.
\<close>

datatype py_error = AttributeError | KeyError | TypeError | LibraryError

fun py_in :: "string \<Rightarrow> json \<Rightarrow> py_error + bool" where
  "py_in k (JDict d) = Inr (has_key d k)"
| "py_in k (JList xs) = Inr (JStr k \<in> set xs)"
| "py_in k (JStr s) = Inr (str_contains s k)"
| "py_in k j = Inl TypeError"

section \<open>\<open>deterministic_sort\<close> (core/utils/data.py)\<close>

text \<open>
  The source builds the sorted mapping key by key, sorting each value as it stores it: first
  the priority keys the object has, in priority order, then its other keys in sorted order.
  The model sorts the values first and then lays the entries out in that order, which gives
  the same mapping.
\<close>

definition root_priority :: "string list" where
  "root_priority =
     [''name'', ''description'', ''personality'', ''scenario'', ''first_mes'', ''mes_example'',
      ''creatorcomment'', ''avatar'', ''talkativeness'', ''fav'', ''tags'',
      ''spec'', ''spec_version'', ''data'', ''create_date'']"

definition data_priority :: "string list" where
  "data_priority =
     [''name'', ''description'', ''personality'', ''scenario'', ''first_mes'', ''mes_example'',
      ''creator_notes'', ''system_prompt'', ''post_history_instructions'',
      ''tags'', ''creator'', ''character_version'', ''alternate_greetings'',
      ''extensions'', ''group_only_greetings'', ''character_book'']"

definition extension_priority :: "string list" where
  "extension_priority =
     [''id'', ''scriptName'', ''name'', ''enabled'', ''disabled'',
      ''findRegex'', ''replaceString'', ''trimStrings'', ''placement'',
      ''runOnEdit'', ''markdownOnly'', ''promptOnly'',
      ''minDepth'', ''maxDepth'', ''substituteRegex'',
      ''type'', ''content'', ''info'', ''button'', ''data'',
      ''top'', ''bottom'', ''left'', ''right'']"

fun merge_priority :: "string list \<Rightarrow> string list \<Rightarrow> string list" where
  "merge_priority acc [] = acc"
| "merge_priority acc (k # ks) = merge_priority (if k \<in> set acc then acc else acc @ [k]) ks"

definition all_priority :: "string list" where
  "all_priority = merge_priority [] (root_priority @ data_priority @ extension_priority)"

fun priority_part :: "dict \<Rightarrow> string list \<Rightarrow> dict" where
  "priority_part obj [] = []"
| "priority_part obj (k # ks) =
     (case map_of obj k of
        Some v \<Rightarrow> (k, v) # priority_part obj ks
      | None \<Rightarrow> priority_part obj ks)"

fun remaining_part :: "dict \<Rightarrow> string list \<Rightarrow> dict" where
  "remaining_part obj [] = []"
| "remaining_part obj (k # ks) =
     (if k \<in> set all_priority then remaining_part obj ks
      else (case map_of obj k of
              Some v \<Rightarrow> (k, v) # remaining_part obj ks
            | None \<Rightarrow> remaining_part obj ks))"

definition reorder :: "dict \<Rightarrow> dict" where
  "reorder obj = priority_part obj all_priority @ remaining_part obj (sort (map fst obj))"

fun deterministic_sort :: "json \<Rightarrow> json" where
  "deterministic_sort (JDict obj) = JDict (reorder (map (\<lambda>p. (fst p, deterministic_sort (snd p))) obj))"
| "deterministic_sort (JList xs) = JList (map deterministic_sort xs)"
| "deterministic_sort j = j"

section \<open>\<open>json.dumps(..., ensure_ascii=False, separators=(',', ':'))\<close>\<close>

definition hex_digit :: "nat \<Rightarrow> char" where
  "hex_digit n = ''0123456789abcdef'' ! n"

definition json_escape_char :: "char \<Rightarrow> string" where
  "json_escape_char c =
     (if c = CHR 0x22 then [CHR 0x5C, CHR 0x22]
      else if c = CHR 0x5C then [CHR 0x5C, CHR 0x5C]
      else if c = CHR 0x0A then [CHR 0x5C, CHR ''n'']
      else if c = CHR 0x0D then [CHR 0x5C, CHR ''r'']
      else if c = CHR 0x09 then [CHR 0x5C, CHR ''t'']
      else if c = CHR 0x08 then [CHR 0x5C, CHR ''b'']
      else if c = CHR 0x0C then [CHR 0x5C, CHR ''f'']
      else if (of_char c :: nat) < 32
        then [CHR 0x5C, CHR ''u'', CHR ''0'', CHR ''0'',
              hex_digit (of_char c div 16), hex_digit (of_char c mod 16)]
      else [c])"

definition json_string :: "string \<Rightarrow> string" where
  "json_string s = [CHR 0x22] @ concat (map json_escape_char s) @ [CHR 0x22]"

fun join_with :: "string \<Rightarrow> string list \<Rightarrow> string" where
  "join_with sep [] = []"
| "join_with sep [x] = x"
| "join_with sep (x # y # ys) = x @ sep @ join_with sep (y # ys)"

fun dumps :: "json \<Rightarrow> string" where
  "dumps JNull = ''null''"
| "dumps (JBool b) = (if b then ''true'' else ''false'')"
| "dumps (JInt i) = str_of_int i"
| "dumps (JStr s) = json_string s"
| "dumps (JList xs) = ''['' @ join_with '','' (map dumps xs) @ '']''"
| "dumps (JDict d) =
     ''{'' @ join_with '','' (map (\<lambda>p. json_string (fst p) @ '':'' @ dumps (snd p)) d) @ ''}''"

section \<open>MD5 (RFC 1321), as computed by \<open>hashlib.md5\<close>\<close>

text \<open>
  32-bit words are natural numbers below \<open>2 ^ 32\<close>; every addition is reduced modulo
  \<open>2 ^ 32\<close> where the algorithm wraps around.  Bytes are natural numbers below 256.
  Each round table lists, per step, the message word index, the rotation amount and the
  sine-derived constant, as in the RFC.
\<close>

type_synonym md5_state = "nat \<times> nat \<times> nat \<times> nat"

definition add32 :: "nat \<Rightarrow> nat \<Rightarrow> nat" where
  "add32 a b = (a + b) mod 4294967296"

definition not32 :: "nat \<Rightarrow> nat" where
  "not32 a = 4294967295 - a mod 4294967296"

definition rotl32 :: "nat \<Rightarrow> nat \<Rightarrow> nat" where
  "rotl32 n w = (w * 2 ^ n) mod 4294967296 + w div 2 ^ (32 - n)"

definition md5_F :: "nat \<Rightarrow> nat \<Rightarrow> nat \<Rightarrow> nat" where
  "md5_F x y z = (x AND y) OR (not32 x AND z)"

definition md5_G :: "nat \<Rightarrow> nat \<Rightarrow> nat \<Rightarrow> nat" where
  "md5_G x y z = (x AND z) OR (y AND not32 z)"

definition md5_H :: "nat \<Rightarrow> nat \<Rightarrow> nat \<Rightarrow> nat" where
  "md5_H x y z = x XOR y XOR z"

definition md5_I :: "nat \<Rightarrow> nat \<Rightarrow> nat \<Rightarrow> nat" where
  "md5_I x y z = y XOR (x OR not32 z)"

fun md5_op :: "(nat \<Rightarrow> nat \<Rightarrow> nat \<Rightarrow> nat) \<Rightarrow> nat list \<Rightarrow> md5_state \<Rightarrow> nat \<times> nat \<times> nat \<Rightarrow> md5_state" where
  "md5_op f X (a, b, c, d) (k, s, t) =
     (d, add32 b (rotl32 s (add32 (add32 (add32 a (f b c d)) (X ! k)) t)), b, c)"

definition md5_round1 :: "(nat \<times> nat \<times> nat) list" where
  "md5_round1 = [
      (0, 7, 0xd76aa478), (1, 12, 0xe8c7b756), (2, 17, 0x242070db), (3, 22, 0xc1bdceee),
      (4, 7, 0xf57c0faf), (5, 12, 0x4787c62a), (6, 17, 0xa8304613), (7, 22, 0xfd469501),
      (8, 7, 0x698098d8), (9, 12, 0x8b44f7af), (10, 17, 0xffff5bb1), (11, 22, 0x895cd7be),
      (12, 7, 0x6b901122), (13, 12, 0xfd987193), (14, 17, 0xa679438e), (15, 22, 0x49b40821)]"

definition md5_round2 :: "(nat \<times> nat \<times> nat) list" where
  "md5_round2 = [
      (1, 5, 0xf61e2562), (6, 9, 0xc040b340), (11, 14, 0x265e5a51), (0, 20, 0xe9b6c7aa),
      (5, 5, 0xd62f105d), (10, 9, 0x02441453), (15, 14, 0xd8a1e681), (4, 20, 0xe7d3fbc8),
      (9, 5, 0x21e1cde6), (14, 9, 0xc33707d6), (3, 14, 0xf4d50d87), (8, 20, 0x455a14ed),
      (13, 5, 0xa9e3e905), (2, 9, 0xfcefa3f8), (7, 14, 0x676f02d9), (12, 20, 0x8d2a4c8a)]"

definition md5_round3 :: "(nat \<times> nat \<times> nat) list" where
  "md5_round3 = [
      (5, 4, 0xfffa3942), (8, 11, 0x8771f681), (11, 16, 0x6d9d6122), (14, 23, 0xfde5380c),
      (1, 4, 0xa4beea44), (4, 11, 0x4bdecfa9), (7, 16, 0xf6bb4b60), (10, 23, 0xbebfbc70),
      (13, 4, 0x289b7ec6), (0, 11, 0xeaa127fa), (3, 16, 0xd4ef3085), (6, 23, 0x04881d05),
      (9, 4, 0xd9d4d039), (12, 11, 0xe6db99e5), (15, 16, 0x1fa27cf8), (2, 23, 0xc4ac5665)]"

definition md5_round4 :: "(nat \<times> nat \<times> nat) list" where
  "md5_round4 = [
      (0, 6, 0xf4292244), (7, 10, 0x432aff97), (14, 15, 0xab9423a7), (5, 21, 0xfc93a039),
      (12, 6, 0x655b59c3), (3, 10, 0x8f0ccc92), (10, 15, 0xffeff47d), (1, 21, 0x85845dd1),
      (8, 6, 0x6fa87e4f), (15, 10, 0xfe2ce6e0), (6, 15, 0xa3014314), (13, 21, 0x4e0811a1),
      (4, 6, 0xf7537e82), (11, 10, 0xbd3af235), (2, 15, 0x2ad7d2bb), (9, 21, 0xeb86d391)]"

fun chunks :: "nat \<Rightarrow> 'a list \<Rightarrow> 'a list list" where
  "chunks n [] = []"
| "chunks n (x # xs) = (if n = 0 then [x # xs] else take n (x # xs) # chunks n (drop n (x # xs)))"

fun le_word32 :: "nat list \<Rightarrow> nat" where
  "le_word32 [] = 0"
| "le_word32 (b # bs) = b + 256 * le_word32 bs"

definition md5_rounds :: "nat list \<Rightarrow> md5_state \<Rightarrow> md5_state" where
  "md5_rounds X st =
     foldl (md5_op md5_I X) (foldl (md5_op md5_H X) (foldl (md5_op md5_G X)
       (foldl (md5_op md5_F X) st md5_round1) md5_round2) md5_round3) md5_round4"

fun md5_add :: "md5_state \<Rightarrow> md5_state \<Rightarrow> md5_state" where
  "md5_add (a0, b0, c0, d0) (a, b, c, d) = (add32 a0 a, add32 b0 b, add32 c0 c, add32 d0 d)"

definition md5_block :: "md5_state \<Rightarrow> nat list \<Rightarrow> md5_state" where
  "md5_block st blk = md5_add st (md5_rounds (map le_word32 (chunks 4 blk)) st)"

fun le_bytes :: "nat \<Rightarrow> nat \<Rightarrow> nat list" where
  "le_bytes 0 w = []"
| "le_bytes (Suc n) w = w mod 256 # le_bytes n (w div 256)"

definition md5_pad :: "nat list \<Rightarrow> nat list" where
  "md5_pad msg =
     msg @ [128] @ replicate ((119 - length msg mod 64) mod 64) 0
         @ le_bytes 8 ((8 * length msg) mod 18446744073709551616)"

fun md5_output :: "md5_state \<Rightarrow> nat list" where
  "md5_output (a, b, c, d) = le_bytes 4 a @ le_bytes 4 b @ le_bytes 4 c @ le_bytes 4 d"

definition md5 :: "nat list \<Rightarrow> nat list" where
  "md5 msg = md5_output (foldl md5_block (0x67452301, 0xefcdab89, 0x98badcfe, 0x10325476)
                                 (chunks 64 (md5_pad msg)))"

definition hex_byte :: "nat \<Rightarrow> string" where
  "hex_byte b = [''0123456789abcdef'' ! (b div 16), ''0123456789abcdef'' ! (b mod 16)]"

definition hexdigest :: "nat list \<Rightarrow> string" where
  "hexdigest msg = concat (map hex_byte (md5 msg))"

definition encode_utf8 :: "string \<Rightarrow> nat list" where
  "encode_utf8 s = map of_char s"

section \<open>Content fingerprinter (core/utils/hash.py)\<close>

text \<open>
  \<open>hashlib\<close>'s hasher is modelled by the bytes fed to it so far: the digest of a hasher is
  the MD5 of the concatenation of all updates.  A file system is a partial map from paths to
  byte contents; a path without content stands for every failure of \<open>os.stat\<close> or
  \<open>open\<close>, which the source catches and answers with \<open>("", 0)\<close>.
\<close>

definition SAMPLE :: nat where
  "SAMPLE = 64 * 1024"

function read_chunks :: "nat list \<Rightarrow> nat list \<Rightarrow> nat list" where
  "read_chunks hasher rest =
     (if take 8192 rest = [] then hasher
      else read_chunks (hasher @ take 8192 rest) (drop 8192 rest))"
  by pat_completeness auto

termination
  by (relation "measure (\<lambda>(h, rest). length rest)") auto

declare read_chunks.simps [simp del]

definition hash_file :: "nat list \<Rightarrow> nat list" where
  "hash_file content =
     (let file_size = length content;
          hasher = encode_utf8 (str_of_nat file_size)
      in if file_size \<le> SAMPLE * 2 then read_chunks hasher content
         else hasher @ take SAMPLE content @ take SAMPLE (drop (file_size - SAMPLE) content))"

definition get_file_hash_and_size :: "(string \<Rightarrow> nat list option) \<Rightarrow> string \<Rightarrow> string \<times> nat" where
  "get_file_hash_and_size fs file_path =
     (case fs file_path of
        None \<Rightarrow> ('''', 0)
      | Some content \<Rightarrow> (hexdigest (hash_file content), length content))"

text \<open>
  \<open>_calculate_data_hash\<close> answers the empty string for a falsy argument.  It canonicalizes the
  argument only when \<open>'name' in data or 'data' in data\<close> holds; on an argument that \<open>in\<close> does not
  apply to, the exception is caught and the answer is the text of the current time, the
  parameter \<open>now\<close>.
\<close>

definition card_gate :: "json \<Rightarrow> py_error + bool" where
  "card_gate data =
     (case py_in ''name'' data of
        Inl e \<Rightarrow> Inl e
      | Inr has_name \<Rightarrow> if has_name then Inr True else py_in ''data'' data)"

definition hash_sorted :: "json \<Rightarrow> string" where
  "hash_sorted data = hexdigest (encode_utf8 (dumps (deterministic_sort data)))"

definition calculate_data_hash :: "string \<Rightarrow> json \<Rightarrow> string" where
  "calculate_data_hash now data =
     (if \<not> truthy data then ''''
      else case card_gate data of
        Inl e \<Rightarrow> now
      | Inr is_card \<Rightarrow> hash_sorted (if is_card then normalize_card_v3 data else data))"

section \<open>Documents up to key order\<close>

text \<open>
  \<open>wf_json\<close>: no mapping at any depth has a key twice, which holds of every parsed document.
  \<open>same_content a b\<close>: the two documents differ in the order of the keys of their mappings
  at most.  \<open>is_card\<close>: the test \<open>_calculate_data_hash\<close> makes on a mapping before it
  canonicalizes it.
\<close>

fun wf_json :: "json \<Rightarrow> bool" where
  "wf_json (JDict d) = (distinct (map fst d) \<and> list_all (\<lambda>p. wf_json (snd p)) d)"
| "wf_json (JList xs) = list_all wf_json xs"
| "wf_json j = True"

function (sequential) same_content :: "json \<Rightarrow> json \<Rightarrow> bool" where
  "same_content (JDict xs) (JDict ys) =
     list_all (\<lambda>k. case map_of xs k of
                      None \<Rightarrow> map_of ys k = None
                    | Some v \<Rightarrow> (case map_of ys k of None \<Rightarrow> False | Some w \<Rightarrow> same_content v w))
              (map fst xs @ map fst ys)"
| "same_content (JList xs) (JList ys) = list_all2 same_content xs ys"
| "same_content a b = (a = b)"
  by pat_completeness auto

termination
proof (relation "measure (\<lambda>(a, b). size a)")
  fix xs ys :: dict and k v w
  assume "map_of xs k = Some v"
  then have "size v < Suc (size_list (size_prod (\<lambda>x. 0) size) xs)"
    by (induction xs) (auto split: if_splits)
  then show "((v, w), (JDict xs, JDict ys)) \<in> measure (\<lambda>(a, b). size a)"
    by simp
next
  fix xs ys :: "json list" and x y
  assume "x \<in> set xs"
  then have "size x < Suc (size_list size xs)"
    by (simp add: less_Suc_eq_le size_list_estimation')
  then show "((x, y), (JList xs, JList ys)) \<in> measure (\<lambda>(a, b). size a)"
    by simp
qed simp

fun is_card :: "json \<Rightarrow> bool" where
  "is_card (JDict d) = (has_key d ''name'' \<or> has_key d ''data'')"
| "is_card j = False"

definition dict_equiv :: "dict \<Rightarrow> dict \<Rightarrow> bool" where
  "dict_equiv xs ys = (\<forall>k. rel_option same_content (map_of xs k) (map_of ys k))"

definition legacy_card :: json where
  "legacy_card = JDict [(''name'', JStr ''Foo''), (''tags'', JList [JStr ''a''])]"

definition versioned_card :: json where
  "versioned_card =
     JDict [(''spec'', JStr ''chara_card_v3''), (''spec_version'', JStr ''3.0''),
            (''data'', JDict [(''tags'', JList [JStr ''a'']), (''name'', JStr ''Foo'')]),
            (''tags'', JList [JStr ''a'']), (''name'', JStr ''Foo'')]"

text \<open>
  The claim as stated fails for a legacy document without a \<open>name\<close>: the code hashes it
  as it is, while its versioned equivalent (which has a \<open>data\<close> key) is canonicalized first.
  The two documents below have the same canonical form and different fingerprints.
\<close>

definition nameless_card :: json where
  "nameless_card = JDict [(''description'', JStr ''x'')]"

definition nameless_card_v3 :: json where
  "nameless_card_v3 =
     JDict [(''description'', JStr ''x''), (''data'', JDict [(''description'', JStr ''x'')]),
            (''spec'', JStr ''chara_card_v3''), (''spec_version'', JStr ''3.0'')]"

section \<open>More Python built-ins: \<open>str\<close>, \<open>lower\<close>, \<open>strip\<close>, \<open>split\<close>, \<open>dict.get\<close>\<close>

text \<open>
  Library calls that are not computed here are parameters of the model, the fields of
  \<open>py_lib\<close>: \<open>float\<close> with the comparison of the floats it returns, \<open>re.search\<close> (pattern,
  text, whether \<open>re.IGNORECASE\<close> is set), and the Unicode part of \<open>str.lower\<close>, \<open>str.upper\<close>
  and \<open>str.strip\<close>.  \<open>to_float\<close> and \<open>re_search\<close> answer \<open>None\<close> where the call raises.
\<close>

record 'f py_lib =
  to_float :: "json \<Rightarrow> 'f option"
  float_less :: "'f \<Rightarrow> 'f \<Rightarrow> bool"
  re_search :: "json \<Rightarrow> string \<Rightarrow> bool \<Rightarrow> bool option"
  unicode_lower :: "string \<Rightarrow> string"
  unicode_upper :: "string \<Rightarrow> string"
  unicode_strip :: "string \<Rightarrow> string"

text \<open>
  Strings are byte strings (UTF-8).  On a string of ASCII characters \<open>lower\<close>, \<open>upper\<close> and
  \<open>strip\<close> are computed: the letters \<open>A\<close> to \<open>Z\<close> and \<open>a\<close> to \<open>z\<close> are mapped, and the white
  space is tab, line feed, vertical tab, form feed, carriage return, the separators
  \<open>0x1C\<close> to \<open>0x1F\<close> and the blank.  On a string with a character outside ASCII the three
  methods follow the Unicode character database (case mappings that change the length,
  white space such as \<open>U+3000\<close>); their result there is the one the library gives.
\<close>

definition is_ascii :: "string \<Rightarrow> bool" where
  "is_ascii s = list_all (\<lambda>c. (of_char c :: nat) < 128) s"

definition lower_char :: "char \<Rightarrow> char" where
  "lower_char c =
     (case map_of (zip ''ABCDEFGHIJKLMNOPQRSTUVWXYZ'' ''abcdefghijklmnopqrstuvwxyz'') c of
        Some l \<Rightarrow> l | None \<Rightarrow> c)"

definition upper_char :: "char \<Rightarrow> char" where
  "upper_char c =
     (case map_of (zip ''abcdefghijklmnopqrstuvwxyz'' ''ABCDEFGHIJKLMNOPQRSTUVWXYZ'') c of
        Some u \<Rightarrow> u | None \<Rightarrow> c)"

definition py_lower :: "'f py_lib \<Rightarrow> string \<Rightarrow> string" where
  "py_lower lib s = (if is_ascii s then map lower_char s else unicode_lower lib s)"

definition py_upper :: "'f py_lib \<Rightarrow> string \<Rightarrow> string" where
  "py_upper lib s = (if is_ascii s then map upper_char s else unicode_upper lib s)"

definition is_space :: "char \<Rightarrow> bool" where
  "is_space c = (c \<in> set [CHR 0x09, CHR 0x0A, CHR 0x0B, CHR 0x0C, CHR 0x0D,
                            CHR 0x1C, CHR 0x1D, CHR 0x1E, CHR 0x1F, CHR 0x20])"

definition py_strip :: "'f py_lib \<Rightarrow> string \<Rightarrow> string" where
  "py_strip lib s =
     (if is_ascii s then rev (dropWhile is_space (rev (dropWhile is_space s)))
      else unicode_strip lib s)"

fun cons_first :: "char \<Rightarrow> string list \<Rightarrow> string list" where
  "cons_first c [] = [[c]]"
| "cons_first c (w # ws) = (c # w) # ws"

fun split_on :: "char \<Rightarrow> string \<Rightarrow> string list" where
  "split_on sep [] = [[]]"
| "split_on sep (c # cs) = (if c = sep then [] # split_on sep cs else cons_first c (split_on sep cs))"

definition repr_char :: "char \<Rightarrow> char \<Rightarrow> string" where
  "repr_char q c =
     (if c = CHR 0x5C then [CHR 0x5C, CHR 0x5C]
      else if c = q then [CHR 0x5C, q]
      else if c = CHR 0x0A then [CHR 0x5C, CHR ''n'']
      else if c = CHR 0x0D then [CHR 0x5C, CHR ''r'']
      else if c = CHR 0x09 then [CHR 0x5C, CHR ''t'']
      else if (of_char c :: nat) < 32 \<or> (of_char c :: nat) = 127
        then [CHR 0x5C, CHR ''x'', hex_digit (of_char c div 16), hex_digit (of_char c mod 16)]
      else [c])"

definition repr_str :: "string \<Rightarrow> string" where
  "repr_str s =
     (if CHR 0x27 \<in> set s \<and> CHR 0x22 \<notin> set s
      then [CHR 0x22] @ concat (map (repr_char (CHR 0x22)) s) @ [CHR 0x22]
      else [CHR 0x27] @ concat (map (repr_char (CHR 0x27)) s) @ [CHR 0x27])"

fun py_repr :: "json \<Rightarrow> string" where
  "py_repr JNull = ''None''"
| "py_repr (JBool b) = (if b then ''True'' else ''False'')"
| "py_repr (JInt i) = str_of_int i"
| "py_repr (JStr s) = repr_str s"
| "py_repr (JList xs) = ''['' @ join_with '', '' (map py_repr xs) @ '']''"
| "py_repr (JDict d) =
     ''{'' @ join_with '', '' (map (\<lambda>p. repr_str (fst p) @ '': '' @ py_repr (snd p)) d) @ ''}''"

fun py_str :: "json \<Rightarrow> string" where
  "py_str (JStr s) = s"
| "py_str j = py_repr j"

fun is_dict :: "json \<Rightarrow> bool" where
  "is_dict (JDict d) = True"
| "is_dict j = False"

fun py_get :: "json \<Rightarrow> string \<Rightarrow> json \<Rightarrow> py_error + json" where
  "py_get (JDict d) k dflt = Inr (case map_of d k of Some v \<Rightarrow> v | None \<Rightarrow> dflt)"
| "py_get j k dflt = Inl AttributeError"

fun get_or :: "json \<Rightarrow> string \<Rightarrow> json \<Rightarrow> json" where
  "get_or (JDict d) k dflt = (case map_of d k of Some v \<Rightarrow> v | None \<Rightarrow> dflt)"
| "get_or j k dflt = dflt"

fun py_index :: "json \<Rightarrow> string \<Rightarrow> py_error + json" where
  "py_index (JDict d) k = (case map_of d k of Some v \<Rightarrow> Inr v | None \<Rightarrow> Inl KeyError)"
| "py_index j k = Inl TypeError"

fun py_iter :: "json \<Rightarrow> py_error + json list" where
  "py_iter (JList xs) = Inr xs"
| "py_iter (JDict d) = Inr (map (\<lambda>p. JStr (fst p)) d)"
| "py_iter (JStr s) = Inr (map (\<lambda>c. JStr [c]) s)"
| "py_iter j = Inl TypeError"

fun py_upper_of :: "'f py_lib \<Rightarrow> json \<Rightarrow> py_error + string" where
  "py_upper_of lib (JStr s) = Inr (py_upper lib s)"
| "py_upper_of lib j = Inl AttributeError"

section \<open>Constants (core/automation/constants.py)\<close>

definition FIELD_MAP :: "(string \<times> string) list" where
  "FIELD_MAP =
     [(''char_name'', ''char_name''), (''description'', ''description''),
      (''creator'', ''creator''), (''char_version'', ''char_version''),
      (''first_mes'', ''first_mes''), (''mes_example'', ''mes_example''),
      (''tags'', ''tags''), (''alternate_greetings'', ''alternate_greetings''),
      (''ui_summary'', ''ui_summary''), (''is_favorite'', ''is_favorite''),
      (''token_count'', ''token_count''), (''file_size'', ''file_size''),
      (''wi_name'', ''character_book''), (''wi_content'', ''character_book''),
      (''regex_name'', ''extensions.regex_scripts''),
      (''regex_content'', ''extensions.regex_scripts''),
      (''st_script_name'', ''extensions.tavern_helper''),
      (''st_script_content'', ''extensions.tavern_helper'')]"

definition OP_EQ :: json where "OP_EQ = JStr ''eq''"

definition OP_NEQ :: json where "OP_NEQ = JStr ''neq''"

definition OP_CONTAINS :: json where "OP_CONTAINS = JStr ''contains''"

definition OP_NOT_CONTAINS :: json where "OP_NOT_CONTAINS = JStr ''not_contains''"

definition OP_REGEX :: json where "OP_REGEX = JStr ''regex''"

definition OP_EXISTS :: json where "OP_EXISTS = JStr ''exists''"

definition OP_NOT_EXISTS :: json where "OP_NOT_EXISTS = JStr ''not_exists''"

definition OP_GT :: json where "OP_GT = JStr ''gt''"

definition OP_LT :: json where "OP_LT = JStr ''lt''"

definition OP_TRUE :: json where "OP_TRUE = JStr ''is_true''"

definition OP_FALSE :: json where "OP_FALSE = JStr ''is_false''"

section \<open>Field resolver: \<open>AutomationEngine._get_field_value\<close> (core/automation/engine.py)\<close>

definition str_field :: "string \<Rightarrow> json \<Rightarrow> json" where
  "str_field k e = JStr (py_str (get_or e k (JStr '''')))"

definition first_truthy :: "json \<Rightarrow> json \<Rightarrow> json \<Rightarrow> json" where
  "first_truthy a b c = (if truthy a then a else if truthy b then b else c)"

definition regex_content_of :: "json \<Rightarrow> json" where
  "regex_content_of s =
     JStr (py_str (first_truthy (get_or s ''findRegex'' JNull) (get_or s ''regex'' JNull) (JStr '''')))"

fun dict_values :: "json \<Rightarrow> json" where
  "dict_values (JDict d) = JList (map snd d)"
| "dict_values j = j"

fun regex_scripts_value :: "json \<Rightarrow> json \<Rightarrow> json" where
  "regex_scripts_value (JList scripts) specific_target =
     (if specific_target = JStr ''regex_content''
      then JList (map regex_content_of (filter is_dict scripts))
      else JList (map (str_field ''scriptName'') (filter is_dict scripts)))"
| "regex_scripts_value j specific_target = JList []"

definition get_regex_scripts :: "json \<Rightarrow> json \<Rightarrow> py_error + json" where
  "get_regex_scripts card_data specific_target =
     (case py_get card_data ''extensions'' (JDict []) of
        Inl e \<Rightarrow> Inl e
      | Inr ext \<Rightarrow>
          (case py_get ext ''regex_scripts'' JNull of
             Inl e \<Rightarrow> Inl e
           | Inr scripts \<Rightarrow>
               Inr (regex_scripts_value
                     (if truthy scripts then scripts else get_or card_data ''regex_scripts'' (JList []))
                     specific_target)))"

fun searchable_entries :: "json list \<Rightarrow> json list" where
  "searchable_entries [] = []"
| "searchable_entries (e # es) =
     (if is_dict e
      then str_field ''content'' e # str_field ''comment'' e # searchable_entries es
      else searchable_entries es)"

fun world_info_value :: "json \<Rightarrow> json \<Rightarrow> json" where
  "world_info_value (JList entries) specific_target =
     (if specific_target = JStr ''wi_content''
      then JList (map (str_field ''content'') (filter is_dict entries))
      else if specific_target = JStr ''wi_name''
      then JList (map (str_field ''comment'') (filter is_dict entries))
      else JList (searchable_entries entries))"
| "world_info_value j specific_target = JList []"

definition get_world_info :: "json \<Rightarrow> json \<Rightarrow> py_error + json" where
  "get_world_info card_data specific_target =
     (case py_get card_data ''character_book'' (JDict []) of
        Inl e \<Rightarrow> Inl e
      | Inr book \<Rightarrow>
          (case py_get book ''entries'' (JList []) of
             Inl e \<Rightarrow> Inl e
           | Inr entries \<Rightarrow> Inr (world_info_value (dict_values entries) specific_target)))"

fun find_scripts :: "json list \<Rightarrow> json list" where
  "find_scripts [] = []"
| "find_scripts (JList (label # payload # others) # items) =
     (if label = JStr ''scripts''
      then (case payload of JList scripts \<Rightarrow> scripts | _ \<Rightarrow> [])
      else find_scripts items)"
| "find_scripts (item # items) = find_scripts items"

fun helper_scripts_value :: "json \<Rightarrow> json \<Rightarrow> json" where
  "helper_scripts_value (JList helper_data) specific_target =
     (if find_scripts helper_data = [] then JList []
      else if specific_target = JStr ''st_script_content''
      then JList (map (str_field ''content'') (filter is_dict (find_scripts helper_data)))
      else JList (map (str_field ''name'') (filter is_dict (find_scripts helper_data))))"
| "helper_scripts_value j specific_target = JList []"

definition get_helper_scripts :: "json \<Rightarrow> json \<Rightarrow> py_error + json" where
  "get_helper_scripts card_data specific_target =
     (case py_get card_data ''extensions'' (JDict []) of
        Inl e \<Rightarrow> Inl e
      | Inr ext \<Rightarrow>
          (case py_get ext ''tavern_helper'' (JList []) of
             Inl e \<Rightarrow> Inl e
           | Inr helper_data \<Rightarrow> Inr (helper_scripts_value helper_data specific_target)))"

fun walk_path :: "json \<Rightarrow> string list \<Rightarrow> json" where
  "walk_path v [] = v"
| "walk_path (JDict d) (k # ks) = walk_path (get_or (JDict d) k JNull) ks"
| "walk_path v (k # ks) = JNull"

fun get_by_key :: "json \<Rightarrow> json \<Rightarrow> py_error + json" where
  "get_by_key (JDict d) (JStr k) = Inr (get_or (JDict d) k JNull)"
| "get_by_key (JDict d) (JList xs) = Inl TypeError"
| "get_by_key (JDict d) (JDict ys) = Inl TypeError"
| "get_by_key (JDict d) k = Inr JNull"
| "get_by_key j k = Inl AttributeError"

fun dotted_value :: "json \<Rightarrow> json \<Rightarrow> py_error + json" where
  "dotted_value card_data (JStr s) = Inr (walk_path card_data (split_on (CHR ''.'') s))"
| "dotted_value card_data j = Inl AttributeError"

definition get_generic :: "json \<Rightarrow> json \<Rightarrow> py_error + json" where
  "get_generic card_data field_key =
     (case py_in ''.'' field_key of
        Inl e \<Rightarrow> Inl e
      | Inr dotted \<Rightarrow>
          if dotted then dotted_value card_data field_key else get_by_key card_data field_key)"

definition get_field_value :: "json \<Rightarrow> json \<Rightarrow> json \<Rightarrow> py_error + json" where
  "get_field_value card_data field_key specific_target =
     (if \<not> truthy field_key then Inr JNull
      else if field_key = JStr ''extensions.regex_scripts'' \<or> field_key = JStr ''regex_scripts''
      then get_regex_scripts card_data specific_target
      else if field_key = JStr ''character_book''
      then get_world_info card_data specific_target
      else if field_key = JStr ''extensions.tavern_helper''
      then get_helper_scripts card_data specific_target
      else get_generic card_data field_key)"

section \<open>Condition evaluator: \<open>AutomationEngine._check_condition\<close>\<close>

text \<open>
  The body of \<open>_check_condition\<close> runs under \<open>try\<close>: \<open>check_condition_body\<close> is the body, and
  \<open>check_condition\<close> turns every exception into \<open>False\<close>, as the \<open>except\<close> clause does.
\<close>

definition compare_numbers :: "'f py_lib \<Rightarrow> json \<Rightarrow> json \<Rightarrow> json \<Rightarrow> bool" where
  "compare_numbers lib operator v target_value =
     (case to_float lib v of
        None \<Rightarrow> False
      | Some val_num \<Rightarrow>
          (case to_float lib target_value of
             None \<Rightarrow> False
           | Some tgt_num \<Rightarrow>
               if operator = OP_GT then float_less lib tgt_num val_num
               else float_less lib val_num tgt_num))"

definition bool_val :: "'f py_lib \<Rightarrow> json \<Rightarrow> bool" where
  "bool_val lib v = (py_lower lib (py_str v) \<in> set [''true'', ''1'', ''yes'', ''on''])"

fun split_target :: "'f py_lib \<Rightarrow> json \<Rightarrow> py_error + string list" where
  "split_target lib (JStr t) =
     Inr (map (\<lambda>t. py_lower lib (py_strip lib t)) (split_on (CHR '','') t))"
| "split_target lib j = Inl AttributeError"

definition target_list :: "'f py_lib \<Rightarrow> json \<Rightarrow> string \<Rightarrow> py_error + string list" where
  "target_list lib target_value tgt_str =
     (case py_in '','' target_value of
        Inl e \<Rightarrow> Inl e
      | Inr has_comma \<Rightarrow> if has_comma then split_target lib target_value else Inr [tgt_str])"

definition list_eq ::
  "'f py_lib \<Rightarrow> json list \<Rightarrow> json \<Rightarrow> string \<Rightarrow> py_error + bool" where
  "list_eq lib vs target_value tgt_str =
     (case target_list lib target_value tgt_str of
        Inl e \<Rightarrow> Inl e
      | Inr targets \<Rightarrow> Inr (sort (map (\<lambda>v. py_lower lib (py_str v)) vs) = sort targets))"

definition list_contains ::
  "'f py_lib \<Rightarrow> json list \<Rightarrow> json \<Rightarrow> string \<Rightarrow> bool \<Rightarrow> bool" where
  "list_contains lib vs target_value tgt_str case_sensitive =
     (if \<not> case_sensitive then list_ex (\<lambda>v. tgt_str = py_lower lib (py_str v)) vs
      else list_ex (\<lambda>v. py_str target_value = py_str v) vs)"

fun compare_strings ::
  "'f py_lib \<Rightarrow> json \<Rightarrow> json \<Rightarrow> json \<Rightarrow> bool \<Rightarrow> string \<Rightarrow> string \<Rightarrow> py_error + bool" where
  "compare_strings lib v operator target_value case_sensitive val_str tgt_str =
     (if operator = OP_EQ then
        (case v of JList vs \<Rightarrow> list_eq lib vs target_value tgt_str | _ \<Rightarrow> Inr (val_str = tgt_str))
      else if operator = OP_NEQ then Inr (val_str \<noteq> tgt_str)
      else if operator = OP_CONTAINS then
        (case v of
           JList vs \<Rightarrow> Inr (list_contains lib vs target_value tgt_str case_sensitive)
         | _ \<Rightarrow> Inr (str_contains val_str tgt_str))
      else if operator = OP_NOT_CONTAINS then
        (case v of
           JList vs \<Rightarrow> Inr (\<not> list_contains lib vs target_value tgt_str case_sensitive)
         | _ \<Rightarrow> Inr (\<not> str_contains val_str tgt_str))
      else if operator = OP_REGEX then
        (case re_search lib target_value (py_str v) (\<not> case_sensitive) of
           None \<Rightarrow> Inl LibraryError
         | Some found \<Rightarrow> Inr found)
      else Inr False)"

definition check_condition_body :: "'f py_lib \<Rightarrow> json \<Rightarrow> json \<Rightarrow> json \<Rightarrow> json \<Rightarrow> py_error + bool" where
  "check_condition_body lib v operator target_value case_sensitive =
     (if operator = OP_EXISTS then Inr (v \<noteq> JNull \<and> v \<noteq> JStr '''' \<and> v \<noteq> JList [])
      else if operator = OP_NOT_EXISTS then Inr (v = JNull \<or> v = JStr '''' \<or> v = JList [])
      else if v = JNull then Inr False
      else if operator = OP_GT \<or> operator = OP_LT
        then Inr (compare_numbers lib operator v target_value)
      else if operator = OP_TRUE \<or> operator = OP_FALSE
        then Inr (if operator = OP_TRUE then bool_val lib v else \<not> bool_val lib v)
      else if \<not> truthy case_sensitive \<and> operator \<noteq> OP_REGEX
        then compare_strings lib v operator target_value (truthy case_sensitive)
               (py_lower lib (py_str v)) (py_lower lib (py_str target_value))
      else compare_strings lib v operator target_value (truthy case_sensitive)
               (py_str v) (py_str target_value))"

definition check_condition :: "'f py_lib \<Rightarrow> json \<Rightarrow> json \<Rightarrow> json \<Rightarrow> json \<Rightarrow> bool" where
  "check_condition lib v operator target_value case_sensitive =
     (case check_condition_body lib v operator target_value case_sensitive of
        Inl e \<Rightarrow> False
      | Inr res \<Rightarrow> res)"

section \<open>Rule engine: \<open>AutomationEngine.evaluate\<close>\<close>

fun field_map_get :: "json \<Rightarrow> py_error + json" where
  "field_map_get (JStr s) = Inr (case map_of FIELD_MAP s of Some m \<Rightarrow> JStr m | None \<Rightarrow> JStr s)"
| "field_map_get (JList xs) = Inl TypeError"
| "field_map_get (JDict d) = Inl TypeError"
| "field_map_get j = Inr j"

definition eval_condition :: "'f py_lib \<Rightarrow> json \<Rightarrow> json \<Rightarrow> py_error + bool" where
  "eval_condition lib card_data cond =
     (case py_index cond ''field'' of
        Inl e \<Rightarrow> Inl e
      | Inr raw_field \<Rightarrow>
     (case field_map_get raw_field of
        Inl e \<Rightarrow> Inl e
      | Inr mapped_field \<Rightarrow>
     (case py_index cond ''operator'' of
        Inl e \<Rightarrow> Inl e
      | Inr operator \<Rightarrow>
     (case get_field_value card_data mapped_field raw_field of
        Inl e \<Rightarrow> Inl e
      | Inr actual_val \<Rightarrow>
          Inr (check_condition lib actual_val operator (get_or cond ''value'' JNull)
                 (get_or cond ''case_sensitive'' (JBool False)))))))"

fun eval_conditions :: "'f py_lib \<Rightarrow> json \<Rightarrow> json list \<Rightarrow> py_error + bool list" where
  "eval_conditions lib card_data [] = Inr []"
| "eval_conditions lib card_data (cond # conds) =
     (case eval_condition lib card_data cond of
        Inl e \<Rightarrow> Inl e
      | Inr res \<Rightarrow>
          (case eval_conditions lib card_data conds of
             Inl e \<Rightarrow> Inl e
           | Inr cond_results \<Rightarrow> Inr (res # cond_results)))"

definition combine :: "string \<Rightarrow> bool list \<Rightarrow> bool" where
  "combine logic results = (if logic = ''AND'' then list_all id results else list_ex id results)"

definition eval_group :: "'f py_lib \<Rightarrow> json \<Rightarrow> json \<Rightarrow> py_error + bool" where
  "eval_group lib card_data grp =
     (case py_get grp ''conditions'' (JList []) of
        Inl e \<Rightarrow> Inl e
      | Inr conditions \<Rightarrow>
     (case py_upper_of lib (get_or grp ''logic'' (JStr ''AND'')) of
        Inl e \<Rightarrow> Inl e
      | Inr group_logic \<Rightarrow>
          if \<not> truthy conditions then Inr False
          else
     (case py_iter conditions of
        Inl e \<Rightarrow> Inl e
      | Inr conds \<Rightarrow>
     (case eval_conditions lib card_data conds of
        Inl e \<Rightarrow> Inl e
      | Inr cond_results \<Rightarrow> Inr (combine group_logic cond_results)))))"

fun eval_groups :: "'f py_lib \<Rightarrow> json \<Rightarrow> json list \<Rightarrow> py_error + bool list" where
  "eval_groups lib card_data [] = Inr []"
| "eval_groups lib card_data (grp # grps) =
     (case eval_group lib card_data grp of
        Inl e \<Rightarrow> Inl e
      | Inr group_match \<Rightarrow>
          (case eval_groups lib card_data grps of
             Inl e \<Rightarrow> Inl e
           | Inr group_results \<Rightarrow> Inr (group_match # group_results)))"

text \<open>
  Every lookup that raises in the source is a branch of the model; the first exception ends
  the evaluation, as it leaves \<open>evaluate\<close> uncaught.  All conditions of a group and all groups
  of a rule are evaluated, in order, before their results are combined.
  What one pass of the loop over the rules does: the rule is skipped (\<open>continue\<close>), it is
  evaluated and does not match, or it matches, with the actions to append and whether
  \<open>stop_on_match\<close> ends the loop.
\<close>

datatype rule_outcome = Skipped | NotMatched | Matched "json list" bool

definition normalized_groups :: "json \<Rightarrow> json" where
  "normalized_groups rule =
     (if \<not> truthy (get_or rule ''groups'' (JList [])) \<and> truthy (get_or rule ''conditions'' JNull)
      then JList [JDict [(''logic'', JStr ''AND''),
                         (''conditions'', get_or rule ''conditions'' (JList []))]]
      else get_or rule ''groups'' (JList []))"

definition collect_actions :: "json \<Rightarrow> py_error + rule_outcome" where
  "collect_actions rule =
     (case py_iter (get_or rule ''actions'' (JList [])) of
        Inl e \<Rightarrow> Inl e
      | Inr actions \<Rightarrow> Inr (Matched actions (truthy (get_or rule ''stop_on_match'' JNull))))"

definition eval_enabled_rule :: "'f py_lib \<Rightarrow> json \<Rightarrow> json \<Rightarrow> py_error + rule_outcome" where
  "eval_enabled_rule lib card_data rule =
     (if \<not> truthy (normalized_groups rule) then Inr Skipped
      else
     (case py_upper_of lib (get_or rule ''logic'' (JStr ''OR'')) of
        Inl e \<Rightarrow> Inl e
      | Inr rule_top_logic \<Rightarrow>
     (case py_iter (normalized_groups rule) of
        Inl e \<Rightarrow> Inl e
      | Inr rule_groups \<Rightarrow>
     (case eval_groups lib card_data rule_groups of
        Inl e \<Rightarrow> Inl e
      | Inr group_results \<Rightarrow>
          if combine rule_top_logic group_results then collect_actions rule
          else Inr NotMatched))))"

definition eval_rule :: "'f py_lib \<Rightarrow> json \<Rightarrow> json \<Rightarrow> py_error + rule_outcome" where
  "eval_rule lib card_data rule =
     (case py_get rule ''enabled'' (JBool True) of
        Inl e \<Rightarrow> Inl e
      | Inr enabled \<Rightarrow>
          if \<not> truthy enabled then Inr Skipped else eval_enabled_rule lib card_data rule)"

fun run_rules :: "'f py_lib \<Rightarrow> json \<Rightarrow> json list \<Rightarrow> json list \<Rightarrow> py_error + json list" where
  "run_rules lib card_data [] plan_actions = Inr plan_actions"
| "run_rules lib card_data (rule # rules) plan_actions =
     (case eval_rule lib card_data rule of
        Inl e \<Rightarrow> Inl e
      | Inr Skipped \<Rightarrow> run_rules lib card_data rules plan_actions
      | Inr NotMatched \<Rightarrow> run_rules lib card_data rules plan_actions
      | Inr (Matched actions stop) \<Rightarrow>
          if stop then Inr (plan_actions @ actions)
          else run_rules lib card_data rules (plan_actions @ actions))"

definition wi_text :: "json \<Rightarrow> string" where
  "wi_text e = py_str (get_or e ''content'' (JStr '''')) @ '' '' @ py_str (get_or e ''comment'' (JStr ''''))"

fun combined_wi :: "json \<Rightarrow> string option" where
  "combined_wi (JList entries) = Some (join_with '' '' (map wi_text (filter is_dict entries)))"
| "combined_wi j = None"

definition precompute_wi :: "dict \<Rightarrow> py_error + dict" where
  "precompute_wi root =
     (if \<not> truthy (get_or (JDict root) ''character_book'' JNull) then Inr root
      else
     (case py_get (get_or (JDict root) ''character_book'' JNull) ''entries'' (JList []) of
        Inl e \<Rightarrow> Inl e
      | Inr entries \<Rightarrow>
          (case combined_wi (dict_values entries) of
             None \<Rightarrow> Inr root
           | Some text \<Rightarrow> Inr (AList.update ''character_book_content'' (JStr text) root))))"

definition plan_of :: "json list \<Rightarrow> json" where
  "plan_of actions = JDict [(''actions'', JList actions)]"

definition evaluate_rules :: "'f py_lib \<Rightarrow> json \<Rightarrow> json \<Rightarrow> py_error + json" where
  "evaluate_rules lib card_data rs =
     (case py_get rs ''rules'' (JList []) of
        Inl e \<Rightarrow> Inl e
      | Inr rules \<Rightarrow>
     (case py_iter rules of
        Inl e \<Rightarrow> Inl e
      | Inr rule_list \<Rightarrow>
     (case run_rules lib card_data rule_list [] of
        Inl e \<Rightarrow> Inl e
      | Inr actions \<Rightarrow> Inr (plan_of actions))))"

text \<open>
  \<open>evaluate\<close> writes into the card it is given, so the model returns the card as it is after
  the call together with the plan or the exception raised.
\<close>

fun evaluate_card :: "'f py_lib \<Rightarrow> json \<Rightarrow> json \<Rightarrow> json \<times> (py_error + json)" where
  "evaluate_card lib (JDict root) rs =
     (case precompute_wi root of
        Inl e \<Rightarrow> (JDict root, Inl e)
      | Inr root' \<Rightarrow> (JDict root', evaluate_rules lib (JDict root') rs))"
| "evaluate_card lib j rs = (j, Inl AttributeError)"

record store =
  st_card :: json
  st_ruleset :: json

definition evaluate :: "'f py_lib \<Rightarrow> store \<Rightarrow> store \<times> (py_error + json)" where
  "evaluate lib st =
     (st\<lparr>st_card := fst (evaluate_card lib (st_card st) (st_ruleset st))\<rparr>,
      snd (evaluate_card lib (st_card st) (st_ruleset st)))"

definition no_lib :: "unit py_lib" where
  "no_lib = \<lparr>to_float = (\<lambda>j. None), float_less = (\<lambda>a b. False), re_search = (\<lambda>p s i. None),
              unicode_lower = (\<lambda>s. s), unicode_upper = (\<lambda>s. s), unicode_strip = (\<lambda>s. s)\<rparr>"

fun stops :: "rule_outcome \<Rightarrow> bool" where
  "stops (Matched actions stop) = stop"
| "stops out = False"

fun actions_of :: "py_error + rule_outcome \<Rightarrow> json list" where
  "actions_of (Inr (Matched actions stop)) = actions"
| "actions_of res = []"

definition foo_root :: dict where
  "foo_root = [(''name'', JStr ''Foo''), (''tags'', JList [JStr ''a'', JStr ''b''])]"

definition add_tag_x :: json where
  "add_tag_x = JDict [(''type'', JStr ''add_tag''), (''tag'', JStr ''x'')]"

definition set_fav :: json where
  "set_fav = JDict [(''type'', JStr ''set_favorite''), (''value'', JBool True)]"

definition rule_A :: json where
  "rule_A = JDict [(''name'', JStr ''A''), (''stop_on_match'', JBool True),
     (''groups'', JList [JDict [(''conditions'', JList [JDict [(''field'', JStr ''tags''),
        (''operator'', JStr ''eq''), (''value'', JStr ''b,a''), (''case_sensitive'', JBool False)]])]]),
     (''actions'', JList [add_tag_x])]"

definition rule_B :: json where
  "rule_B = JDict [(''name'', JStr ''B''),
     (''conditions'', JList [JDict [(''field'', JStr ''name''), (''operator'', JStr ''exists'')]]),
     (''actions'', JList [set_fav])]"

definition empty_rule :: dict where
  "empty_rule = [(''name'', JStr ''E''), (''enabled'', JBool True), (''logic'', JInt 5),
                 (''groups'', JList []), (''actions'', JList [add_tag_x]),
                 (''stop_on_match'', JBool True)]"

definition empty_group :: dict where
  "empty_group = [(''logic'', JStr ''or''), (''conditions'', JList [])]"

definition disabled_rule :: dict where
  "disabled_rule = [(''name'', JStr ''B''), (''enabled'', JBool False),
     (''conditions'', JList [JDict [(''field'', JStr ''name''), (''operator'', JStr ''exists'')]]),
     (''actions'', JList [set_fav])]"

definition rule_B_fields :: dict where
  "rule_B_fields = [(''name'', JStr ''B''),
     (''conditions'', JList [JDict [(''field'', JStr ''name''), (''operator'', JStr ''exists'')]]),
     (''actions'', JList [set_fav])]"

definition name_exists_group :: json where
  "name_exists_group = JDict [(''logic'', JStr ''AND''),
     (''conditions'', JList [JDict [(''field'', JStr ''name''), (''operator'', JStr ''exists'')]])]"

definition null_enabled_rule :: dict where
  "null_enabled_rule = [(''name'', JStr ''B''), (''enabled'', JNull),
     (''conditions'', JList [JDict [(''field'', JStr ''name''), (''operator'', JStr ''exists'')]]),
     (''actions'', JList [set_fav])]"

section \<open>Cards and rulesets shaped as the data model has them\<close>

text \<open>
  The engine reads its inputs with \<open>.get\<close>, indexing and iteration, and raises where a value
  has another type than the one it expects.  The predicates below describe inputs of the
  expected types: in a card, \<open>character_book\<close> and \<open>extensions\<close> are mappings when present; a
  condition is a mapping with a string \<open>field\<close> and an \<open>operator\<close>; a group is a mapping whose
  \<open>logic\<close> is a string when present and whose \<open>conditions\<close> are empty or a sequence of
  conditions; a rule is a mapping whose \<open>logic\<close> is a string when present, whose groups are
  empty or a sequence of groups, and whose \<open>actions\<close> are a sequence when present.
\<close>

fun is_str :: "json \<Rightarrow> bool" where
  "is_str (JStr s) = True"
| "is_str j = False"

fun is_list :: "json \<Rightarrow> bool" where
  "is_list (JList xs) = True"
| "is_list j = False"

fun shaped_card :: "json \<Rightarrow> bool" where
  "shaped_card (JDict d) =
     (is_dict (get_or (JDict d) ''character_book'' (JDict [])) \<and>
      is_dict (get_or (JDict d) ''extensions'' (JDict [])))"
| "shaped_card j = False"

fun shaped_condition :: "json \<Rightarrow> bool" where
  "shaped_condition (JDict c) = (is_str (get_or (JDict c) ''field'' JNull) \<and> has_key c ''operator'')"
| "shaped_condition j = False"

fun all_shaped :: "(json \<Rightarrow> bool) \<Rightarrow> json \<Rightarrow> bool" where
  "all_shaped shaped (JList xs) = list_all shaped xs"
| "all_shaped shaped j = (\<not> truthy j)"

fun shaped_group :: "json \<Rightarrow> bool" where
  "shaped_group (JDict g) =
     (is_str (get_or (JDict g) ''logic'' (JStr ''AND'')) \<and>
      all_shaped shaped_condition (get_or (JDict g) ''conditions'' (JList [])))"
| "shaped_group j = False"

fun shaped_rule :: "json \<Rightarrow> bool" where
  "shaped_rule (JDict r) =
     (is_str (get_or (JDict r) ''logic'' (JStr ''OR'')) \<and>
      all_shaped shaped_group (normalized_groups (JDict r)) \<and>
      is_list (get_or (JDict r) ''actions'' (JList [])))"
| "shaped_rule j = False"

fun shaped_ruleset :: "json \<Rightarrow> bool" where
  "shaped_ruleset (JDict rs) =
     (is_list (get_or (JDict rs) ''rules'' (JList [])) \<and>
      all_shaped shaped_rule (get_or (JDict rs) ''rules'' (JList [])))"
| "shaped_ruleset j = False"

definition lore_root :: dict where
  "lore_root =
     [(''name'', JStr ''Foo''),
      (''character_book'', JDict [(''entries'',
          JList [JDict [(''content'', JStr ''lore''), (''comment'', JStr ''note'')]])])]"

definition lore_rules :: json where
  "lore_rules = JDict [(''rules'', JList [rule_B])]"

section \<open>Plan executor: \<open>AutomationExecutor.apply_plan\<close> (core/automation/executor.py)\<close>

text \<open>
  The card service (\<open>core.services.card_service\<close>) is a collaborator outside the sources at
  hand.  Its two entry points are parameters of the model: each takes the state of the card
  library and returns the new state with its answer.  A plan is the mapping of the docstring:
  an absent key and \<open>None\<close> read the same through \<open>plan.get\<close>, and a tag set is the list that
  \<open>list(...)\<close> makes of it.
\<close>

record 'w card_service =
  modify_card_attributes_internal ::
    "'w \<Rightarrow> string \<Rightarrow> string list \<Rightarrow> string list \<Rightarrow> bool option \<Rightarrow> 'w \<times> bool"
  move_card_internal :: "'w \<Rightarrow> string \<Rightarrow> string \<Rightarrow> 'w \<times> bool \<times> string \<times> string"

record plan =
  plan_move :: "string option"
  plan_add_tags :: "string list"
  plan_remove_tags :: "string list"
  plan_favorite :: "bool option"

record plan_result =
  moved_to :: "string option"
  tags_added :: "string list"
  tags_removed :: "string list"
  fav_changed :: bool
  final_id :: string

definition initial_result :: "string \<Rightarrow> plan_result" where
  "initial_result card_id =
     \<lparr>moved_to = None, tags_added = [], tags_removed = [], fav_changed = False,
      final_id = card_id\<rparr>"

definition has_attribute_changes :: "plan \<Rightarrow> bool" where
  "has_attribute_changes p =
     (plan_add_tags p \<noteq> [] \<or> plan_remove_tags p \<noteq> [] \<or> plan_favorite p \<noteq> None)"

fun record_attributes :: "plan \<Rightarrow> plan_result \<Rightarrow> 'w \<times> bool \<Rightarrow> 'w \<times> plan_result" where
  "record_attributes p res (w, success) =
     (w, if success
         then res\<lparr>tags_added := plan_add_tags p, tags_removed := plan_remove_tags p,
                   fav_changed := (plan_favorite p \<noteq> None)\<rparr>
         else res)"

definition apply_attributes ::
  "'w card_service \<Rightarrow> string \<Rightarrow> plan \<Rightarrow> 'w \<times> plan_result \<Rightarrow> 'w \<times> plan_result" where
  "apply_attributes svc current_id p st =
     (if has_attribute_changes p
      then record_attributes p (snd st)
             (modify_card_attributes_internal svc (fst st) current_id
                (plan_add_tags p) (plan_remove_tags p) (plan_favorite p))
      else st)"

fun record_move :: "string \<Rightarrow> plan_result \<Rightarrow> 'w \<times> bool \<times> string \<times> string \<Rightarrow> 'w \<times> plan_result" where
  "record_move target_folder res (w, success, new_id, msg) =
     (w, if success then res\<lparr>moved_to := Some target_folder, final_id := new_id\<rparr> else res)"

definition apply_move ::
  "'w card_service \<Rightarrow> string \<Rightarrow> plan \<Rightarrow> 'w \<times> plan_result \<Rightarrow> 'w \<times> plan_result" where
  "apply_move svc current_id p st =
     (case plan_move p of
        None \<Rightarrow> st
      | Some target_folder \<Rightarrow>
          record_move target_folder (snd st)
            (move_card_internal svc (fst st) current_id target_folder))"

definition apply_plan :: "'w card_service \<Rightarrow> 'w \<Rightarrow> string \<Rightarrow> plan \<Rightarrow> 'w \<times> plan_result" where
  "apply_plan svc w card_id p =
     apply_move svc card_id p (apply_attributes svc card_id p (w, initial_result card_id))"

section \<open>Rule store: \<open>RuleManager.save_ruleset\<close> (core/automation/manager.py)\<close>

text \<open>
  The rule directory is a map from ruleset ids to the documents stored under
  \<open><id>.json\<close>; the configuration is reduced to the id of the active ruleset.  Writing and
  removing a file succeed.  The search for a free file name is the \<open>while\<close> loop of the
  source; it has no bound of its own, so it is a partial function.  \<open>str.strip\<close> and
  \<open>str.lower\<close> are the methods of the engine model: computed on ASCII strings, given by the
  library on the others.
\<close>

record rule_store =
  rule_files :: "string \<Rightarrow> json option"
  active_automation_ruleset :: "string option"

definition illegal_chars :: "char list" where
  "illegal_chars = [CHR 0x5C, CHR ''/'', CHR ''*'', CHR ''?'', CHR '':'', CHR 0x22,
                    CHR ''<'', CHR ''>'', CHR ''|'']"

definition replace_illegal :: "string \<Rightarrow> string" where
  "replace_illegal s = map (\<lambda>c. if c \<in> set illegal_chars then CHR ''_'' else c) s"

definition sanitize_filename :: "'f py_lib \<Rightarrow> json \<Rightarrow> string" where
  "sanitize_filename lib name =
     (if replace_illegal (py_strip lib (py_str name)) = [] then ''Untitled_Ruleset''
      else replace_illegal (py_strip lib (py_str name)))"

partial_function (option) resolve_conflict ::
  "(string \<Rightarrow> json option) \<Rightarrow> string \<Rightarrow> string \<Rightarrow> nat \<Rightarrow> string option" where
  "resolve_conflict files base_filename new_id counter =
     (if files new_id \<noteq> None
      then resolve_conflict files base_filename
             (base_filename @ ''_'' @ str_of_nat counter) (counter + 1)
      else Some new_id)"

definition with_metadata :: "dict \<Rightarrow> dict" where
  "with_metadata d =
     (if truthy (get_or (JDict (AList.update ''spec'' (JStr ''st_manager_ruleset'') d))
                  ''spec_version'' JNull)
      then AList.update ''spec'' (JStr ''st_manager_ruleset'') d
      else AList.update ''spec_version'' (JStr ''1.0'')
             (AList.update ''spec'' (JStr ''st_manager_ruleset'') d))"

definition same_name :: "'f py_lib \<Rightarrow> string option \<Rightarrow> string \<Rightarrow> bool" where
  "same_name lib old_ruleset_id new_id =
     (case old_ruleset_id of
        None \<Rightarrow> False
      | Some old \<Rightarrow> old \<noteq> [] \<and> py_lower lib old = py_lower lib new_id)"

definition choose_id ::
  "'f py_lib \<Rightarrow> (string \<Rightarrow> json option) \<Rightarrow> string option \<Rightarrow> string \<Rightarrow> string option" where
  "choose_id lib files old_ruleset_id base_filename =
     (if same_name lib old_ruleset_id base_filename then old_ruleset_id
      else resolve_conflict files base_filename base_filename 1)"

definition is_rename :: "string option \<Rightarrow> string \<Rightarrow> bool" where
  "is_rename old_ruleset_id new_id =
     (case old_ruleset_id of None \<Rightarrow> False | Some old \<Rightarrow> old \<noteq> [] \<and> old \<noteq> new_id)"

definition remove_old :: "string option \<Rightarrow> string \<Rightarrow> rule_store \<Rightarrow> rule_store" where
  "remove_old old_ruleset_id new_id st =
     (case old_ruleset_id of
        None \<Rightarrow> st
      | Some old \<Rightarrow>
          if is_rename old_ruleset_id new_id
          then st\<lparr>rule_files := (rule_files st)(old := None)\<rparr>
          else st)"

definition write_ruleset :: "string \<Rightarrow> dict \<Rightarrow> rule_store \<Rightarrow> rule_store" where
  "write_ruleset new_id d st =
     st\<lparr>rule_files := (rule_files st)(new_id \<mapsto> JDict (AList.update ''id'' (JStr new_id) d))\<rparr>"

definition update_config :: "string option \<Rightarrow> string \<Rightarrow> rule_store \<Rightarrow> rule_store" where
  "update_config old_ruleset_id new_id st =
     (if is_rename old_ruleset_id new_id \<and> active_automation_ruleset st = old_ruleset_id
      then st\<lparr>active_automation_ruleset := Some new_id\<rparr>
      else st)"

definition store_as :: "string option \<Rightarrow> dict \<Rightarrow> rule_store \<Rightarrow> string \<Rightarrow> string \<times> rule_store" where
  "store_as old_ruleset_id d st new_id =
     (new_id, update_config old_ruleset_id new_id
                (write_ruleset new_id d (remove_old old_ruleset_id new_id st)))"

fun save_ruleset ::
  "'f py_lib \<Rightarrow> rule_store \<Rightarrow> string option \<Rightarrow> json \<Rightarrow>
     (py_error + string \<times> rule_store) option" where
  "save_ruleset lib st old_ruleset_id (JDict d) =
     (case py_get (get_or (JDict (with_metadata d)) ''meta'' (JDict [])) ''name'' (JStr ''Untitled'') of
        Inl e \<Rightarrow> Some (Inl e)
      | Inr meta_name \<Rightarrow>
          map_option (\<lambda>new_id. Inr (store_as old_ruleset_id (with_metadata d) st new_id))
            (choose_id lib (rule_files st) old_ruleset_id (sanitize_filename lib meta_name)))"
| "save_ruleset lib st old_ruleset_id data = Some (Inl TypeError)"

definition log_service :: "string list card_service" where
  "log_service =
     \<lparr>modify_card_attributes_internal =
        (\<lambda>w card_id add_tags remove_tags fav. (w @ [''modify '' @ card_id], True)),
      move_card_internal =
        (\<lambda>w card_id target. (w @ [''move '' @ card_id], False, ''moved.png'', ''denied''))\<rparr>"

definition tag_and_move :: plan where
  "tag_and_move =
     \<lparr>plan_move = Some ''Folder'', plan_add_tags = [''x''], plan_remove_tags = [],
      plan_favorite = None\<rparr>"

definition my_rules :: dict where
  "my_rules = [(''meta'', JDict [(''name'', JStr '' myrules '')]), (''rules'', JList [])]"

definition two_files :: rule_store where
  "two_files =
     \<lparr>rule_files = (\<lambda>i. if i = ''MyRules'' \<or> i = ''myrules'' then Some (JDict []) else None),
      active_automation_ruleset = Some ''MyRules''\<rparr>"

text \<open>
  A name outside ASCII: the old id \<open>A_grave_B\<close> is the capital letter A with grave accent
  (\<open>U+00C0\<close>, two bytes in UTF-8) followed by \<open>B\<close>, the new display name \<open>a_grave_b\<close> is
  its lower case (\<open>U+00E0\<close> followed by \<open>b\<close>); \<open>latin_lib\<close> lowers the one to the other,
  as \<open>str.lower\<close> does.
\<close>

definition A_grave_B :: string where
  "A_grave_B = [CHR 0xC3, CHR 0x80, CHR ''B'']"

definition a_grave_b :: string where
  "a_grave_b = [CHR 0xC3, CHR 0xA0, CHR ''b'']"

definition latin_lib :: "unit py_lib" where
  "latin_lib = no_lib\<lparr>unicode_lower := (\<lambda>s. if s = A_grave_B then a_grave_b else s)\<rparr>"

definition accent_rules :: dict where
  "accent_rules = [(''meta'', JDict [(''name'', JStr a_grave_b)]), (''rules'', JList [])]"

definition accent_files :: rule_store where
  "accent_files =
     \<lparr>rule_files = (\<lambda>i. if i = A_grave_B \<or> i = a_grave_b then Some (JDict []) else None),
      active_automation_ruleset = None\<rparr>"

section \<open>Properties\<close>

subsection \<open>Idempotence\<close>

lemma sync_field_keeps: "has_key db k \<Longrightarrow> has_key (sync_field c db f) k"
  by (simp add: sync_field_def has_key_def update_conv')

lemma sync_loop_keeps: "has_key db k \<Longrightarrow> has_key (foldl (sync_field c) db fs) k"
  by (induction fs arbitrary: db) (simp_all add: sync_field_keeps)

lemma sync_field_done: "has_key (sync_field c db f) f \<or> root_val c f = JNull"
  by (simp add: sync_field_def has_key_def update_conv')

lemma sync_loop_done:
  "f \<in> set fs \<Longrightarrow> has_key (foldl (sync_field c) db fs) f \<or> root_val c f = JNull"
proof (induction fs arbitrary: db)
  case Nil
  then show ?case by simp
next
  case (Cons g fs)
  show ?case
  proof (cases "f = g")
    case True
    then show ?thesis
      using sync_field_done[of c db g] sync_loop_keeps[of "sync_field c db g" g c fs] by auto
  next
    case False
    with Cons show ?thesis by simp
  qed
qed

lemma sync_loop_fixed:
  "\<forall>f \<in> set fs. has_key db f \<or> root_val c f = JNull \<Longrightarrow> foldl (sync_field c) db fs = db"
  by (induction fs) (auto simp: sync_field_def)

lemma strip_root_keys_map:
  "map_of (strip_root_keys d) k =
     (if k = ''data'' \<or> k = ''spec_version'' \<or> k = ''spec'' then None else map_of d k)"
  by (simp add: strip_root_keys_def delete_conv')

lemma strip_root_keys_idem: "strip_root_keys (strip_root_keys d) = strip_root_keys d"
proof -
  have "\<And>k al. map_of al k = None \<Longrightarrow> AList.delete k al = al"
    by (simp add: map_of_eq_None_iff)
  then show ?thesis
    by (metis strip_root_keys_def strip_root_keys_map)
qed

lemma relocate_map_fst:
  "map_of (fst (relocate k (c, db))) k' = (if k' = k then None else map_of c k')"
  by (auto simp: delete_conv' split: option.splits)

lemma relocate_has_key: "has_key db k' \<Longrightarrow> has_key (snd (relocate k (c, db))) k'"
  by (auto simp: has_key_def update_conv' split: option.splits)

lemma relocate_absent: "map_of c k = None \<Longrightarrow> relocate k (c, db) = (c, db)"
  by simp

declare relocate.simps [simp del]

lemma write_back_alt:
  "write_back st = AList.update ''data'' (JDict (strip_root_keys (snd st))) (fst st)"
  by (cases st) simp

lemma root_val_cong:
  "map_of r (find_root_key key_mapping f) = map_of c (find_root_key key_mapping f) \<Longrightarrow>
   map_of r f = map_of c f \<Longrightarrow> root_val r f = root_val c f"
  by (simp add: root_val_def split: option.splits)

lemma core_field_root_key:
  "f \<in> set core_fields \<Longrightarrow>
     find_root_key key_mapping f = f \<or> find_root_key key_mapping f = ''creatorcomment''"
  by (simp add: key_mapping_def)

lemma core_field_not_header:
  "f \<in> set core_fields \<Longrightarrow> f \<noteq> ''data'' \<and> f \<noteq> ''spec'' \<and> f \<noteq> ''spec_version''"
  by (auto simp: core_fields_def)

lemma normalize_dict_fixed:
  assumes data: "map_of r ''data'' = Some (JDict D)"
    and spec: "map_of r ''spec'' = Some (JStr ''chara_card_v3'')"
    and ver: "map_of r ''spec_version'' = Some (JStr ''3.0'')"
    and cb: "map_of r ''character_book'' = None"
    and ext: "map_of r ''extensions'' = None"
    and synced: "\<forall>f \<in> set core_fields. has_key D f \<or> root_val r f = JNull"
    and stripped: "strip_root_keys D = D"
  shows "normalize_dict r = r"
proof -
  have c1: "ensure_data r = r" by (simp add: ensure_data_def data)
  have c2: "AList.update ''spec_version'' (JStr ''3.0'')
              (AList.update ''spec'' (JStr ''chara_card_v3'') r) = r"
    by (simp add: update_triv spec ver)
  have db: "data_block_of r = D" by (simp add: data_block_of_def data)
  have loop: "foldl (sync_field r) D core_fields = D"
    using synced by (rule sync_loop_fixed)
  have rel: "relocate ''extensions'' (relocate ''character_book'' (r, D)) = (r, D)"
    by (simp add: relocate_absent cb ext)
  show ?thesis
    by (simp add: normalize_dict_def with_headers_def c1 c2 db loop rel stripped update_triv data)
qed

lemma normalize_dict_props:
  fixes root :: dict
  defines "c2 \<equiv> AList.update ''spec_version'' (JStr ''3.0'')
                 (AList.update ''spec'' (JStr ''chara_card_v3'') (ensure_data root))"
  defines "db1 \<equiv> foldl (sync_field c2) (data_block_of (ensure_data root)) core_fields"
  defines "st \<equiv> relocate ''extensions'' (relocate ''character_book'' (c2, db1))"
  defines "D \<equiv> strip_root_keys (snd st)"
  shows "normalize_dict root = AList.update ''data'' (JDict D) (fst st)"
    and "\<And>k. map_of (fst st) k =
           (if k = ''extensions'' \<or> k = ''character_book'' then None else map_of c2 k)"
    and "\<And>k. has_key db1 k \<Longrightarrow> has_key (snd st) k"
proof -
  show "normalize_dict root = AList.update ''data'' (JDict D) (fst st)"
    by (simp add: normalize_dict_def with_headers_def write_back_alt D_def st_def db1_def c2_def)
  obtain a b where ab: "relocate ''character_book'' (c2, db1) = (a, b)"
    by (cases "relocate ''character_book'' (c2, db1)")
  have a: "\<And>k. map_of a k = (if k = ''character_book'' then None else map_of c2 k)"
    using relocate_map_fst[of "''character_book''" c2 db1] by (simp add: ab)
  have b: "\<And>k. has_key db1 k \<Longrightarrow> has_key b k"
    using relocate_has_key[of db1 _ "''character_book''" c2] by (simp add: ab)
  show "\<And>k. map_of (fst st) k =
           (if k = ''extensions'' \<or> k = ''character_book'' then None else map_of c2 k)"
    using relocate_map_fst[of "''extensions''" a b] by (auto simp: st_def ab a)
  show "\<And>k. has_key db1 k \<Longrightarrow> has_key (snd st) k"
    using relocate_has_key[of b _ "''extensions''" a] b by (simp add: st_def ab)
qed

lemma normalize_dict_idem: "normalize_dict (normalize_dict root) = normalize_dict root"
proof -
  define c2 where "c2 = AList.update ''spec_version'' (JStr ''3.0'')
                 (AList.update ''spec'' (JStr ''chara_card_v3'') (ensure_data root))"
  define db1 where "db1 = foldl (sync_field c2) (data_block_of (ensure_data root)) core_fields"
  define st where "st = relocate ''extensions'' (relocate ''character_book'' (c2, db1))"
  define D where "D = strip_root_keys (snd st)"
  define r where "r = AList.update ''data'' (JDict D) (fst st)"
  have nd: "normalize_dict root = r"
    using normalize_dict_props(1)[of root] by (simp add: r_def D_def st_def db1_def c2_def)
  have fst_map: "\<And>k. map_of (fst st) k =
           (if k = ''extensions'' \<or> k = ''character_book'' then None else map_of c2 k)"
    using normalize_dict_props(2)[of root] by (simp add: st_def db1_def c2_def)
  have snd_keys: "\<And>k. has_key db1 k \<Longrightarrow> has_key (snd st) k"
    using normalize_dict_props(3)[of root] by (simp add: st_def db1_def c2_def)
  have r_map: "\<And>k. map_of r k =
      (if k = ''data'' then Some (JDict D)
       else if k = ''extensions'' \<or> k = ''character_book'' then None else map_of c2 k)"
    by (simp add: r_def update_conv' fst_map)
  have "normalize_dict r = r"
  proof (rule normalize_dict_fixed[where D = D])
    show "map_of r ''data'' = Some (JDict D)" by (simp add: r_map)
    show "map_of r ''spec'' = Some (JStr ''chara_card_v3'')"
      by (simp add: r_map c2_def update_conv')
    show "map_of r ''spec_version'' = Some (JStr ''3.0'')"
      by (simp add: r_map c2_def update_conv')
    show "map_of r ''character_book'' = None" by (simp add: r_map)
    show "map_of r ''extensions'' = None" by (simp add: r_map)
    show "strip_root_keys D = D" by (simp add: D_def strip_root_keys_idem)
    show "\<forall>f \<in> set core_fields. has_key D f \<or> root_val r f = JNull"
    proof
      fix f assume f: "f \<in> set core_fields"
      show "has_key D f \<or> root_val r f = JNull"
      proof (cases "f = ''extensions'' \<or> f = ''character_book''")
        case True
        then have "root_val r f = JNull"
          by (auto simp: root_val_def key_mapping_def r_map)
        then show ?thesis ..
      next
        case False
        have "find_root_key key_mapping f = f \<or> find_root_key key_mapping f = ''creatorcomment''"
          using f by (rule core_field_root_key)
        moreover have "map_of r f = map_of c2 f"
          using False core_field_not_header[OF f] by (simp add: r_map)
        moreover have "map_of r ''creatorcomment'' = map_of c2 ''creatorcomment''"
          by (simp add: r_map)
        ultimately have rv: "root_val r f = root_val c2 f"
          by (auto intro: root_val_cong)
        have "has_key db1 f \<or> root_val c2 f = JNull"
          unfolding db1_def using f by (rule sync_loop_done)
        then show ?thesis
        proof
          assume "has_key db1 f"
          then have "has_key (snd st) f" by (rule snd_keys)
          then have "has_key D f"
            using core_field_not_header[OF f] by (simp add: D_def has_key_def strip_root_keys_map)
          then show ?thesis ..
        next
          assume "root_val c2 f = JNull"
          then show ?thesis by (simp add: rv)
        qed
      qed
    qed
  qed
  then show ?thesis by (simp add: nd)
qed

text \<open>
  Claim C3.  Canonicalization is idempotent: for every document \<open>d\<close>, a mapping or not,
  \<open>normalize_card_v3\<close> applied to its own result gives that result again, keys in the same
  order.
\<close>

theorem normalize_card_v3_idempotent:
  "normalize_card_v3 (normalize_card_v3 d) = normalize_card_v3 d"
  by (cases d) (simp_all add: normalize_dict_idem)

lemma replicate_num: "replicate (numeral k) x = x # replicate (pred_numeral k) x"
  unfolding numeral_eq_Suc[of k] by simp

lemma le_bytes_num: "le_bytes (numeral k) w = w mod 256 # le_bytes (pred_numeral k) (w div 256)"
  unfolding numeral_eq_Suc[of k] by simp

lemmas md5_eval = hexdigest_def md5_def md5_block_def md5_rounds_def md5_pad_def
  md5_round1_def md5_round2_def md5_round3_def md5_round4_def
  md5_F_def md5_G_def md5_H_def md5_I_def add32_def not32_def
  rotl32_def hex_byte_def le_bytes_num replicate_num encode_utf8_def

lemma read_chunks_all: "read_chunks hasher rest = hasher @ rest"
proof (induction hasher rest rule: read_chunks.induct)
  case (1 hasher rest)
  show ?case
  proof (cases "take 8192 rest = []")
    case True
    then have "rest = []" by (cases rest) simp_all
    with True show ?thesis by (simp add: read_chunks.simps)
  next
    case False
    with 1 show ?thesis
      by (subst read_chunks.simps) simp
  qed
qed

text \<open>
  Claim C4, as the code has it.  The signature is the MD5 over the decimal file size followed
  by the first and the last 64 KiB when the file is larger than 128 KiB, and over the decimal
  file size followed by the whole content otherwise; the size is returned with it.
\<close>

theorem get_file_hash_and_size_spec:
  "fs file_path = Some content \<Longrightarrow>
   get_file_hash_and_size fs file_path =
     (hexdigest (encode_utf8 (str_of_nat (length content)) @
        (if length content > 128 * 1024
         then take (64 * 1024) content @ drop (length content - 64 * 1024) content
         else content)),
      length content)"
  by (simp add: get_file_hash_and_size_def hash_file_def SAMPLE_def read_chunks_all Let_def)

theorem get_file_hash_and_size_witness:
  "(\<lambda>p. if p = ''card.png'' then Some [97, 98, 99] else None) ''card.png'' = Some [97, 98, 99] \<and>
   get_file_hash_and_size (\<lambda>p. if p = ''card.png'' then Some [97, 98, 99] else None) ''card.png'' =
     (hexdigest (encode_utf8 (str_of_nat 3) @ [97, 98, 99]), 3)"
  using get_file_hash_and_size_spec
    [of "\<lambda>p. if p = ''card.png'' then Some [97, 98, 99] else None" "''card.png''" "[97, 98, 99]"]
  by (simp add: numeral_3_eq_3)

text \<open>The test vectors of RFC 1321 for the empty message and for \<open>abc\<close>.\<close>

lemma md5_empty: "hexdigest [] = ''d41d8cd98f00b204e9800998ecf8427e''"
  by (simp add: md5_eval)

lemma md5_abc: "hexdigest [97, 98, 99] = ''900150983cd24fb0d6963f7d28e17f72''"
  by (simp add: md5_eval)

lemma md5_3abc: "hexdigest [51, 97, 98, 99] = ''2f4fe09bb4f6bb9ad8ee6e7579e8f5e1''"
  by (simp add: md5_eval)

text \<open>
  The claim as stated fails for a small file: for the three bytes \<open>abc\<close> the signature is
  the MD5 of \<open>3abc\<close>, not the MD5 of the byte stream \<open>abc\<close>.
\<close>

theorem get_file_hash_and_size_counterexample:
  "fst (get_file_hash_and_size (\<lambda>p. Some [97, 98, 99]) ''card.png'') \<noteq> hexdigest [97, 98, 99]"
proof -
  have "fst (get_file_hash_and_size (\<lambda>p. Some [97, 98, 99]) ''card.png'') = hexdigest [51, 97, 98, 99]"
    by (simp add: get_file_hash_and_size_def hash_file_def SAMPLE_def read_chunks_all Let_def
        encode_utf8_def str_of_nat.simps)
  then show ?thesis by (simp add: md5_abc md5_3abc)
qed

subsection \<open>Dictionaries as maps\<close>

lemma lookup_rel_case:
  "(case a of None \<Rightarrow> b = None
            | Some v \<Rightarrow> (case b of None \<Rightarrow> False | Some w \<Rightarrow> R v w)) = rel_option R a b"
  by (cases a; cases b) simp_all

lemma same_content_keys:
  "same_content (JDict xs) (JDict ys) =
     (\<forall>k \<in> set (map fst xs @ map fst ys). rel_option same_content (map_of xs k) (map_of ys k))"
  by (simp only: same_content.simps lookup_rel_case list_all_iff)

lemma same_content_dict: "same_content (JDict xs) (JDict ys) = dict_equiv xs ys"
proof -
  have "rel_option same_content (map_of xs k) (map_of ys k)"
    if "k \<notin> set (map fst xs @ map fst ys)" for k
  proof -
    from that have "map_of xs k = None" "map_of ys k = None"
      by (auto simp: map_of_eq_None_iff)
    then show ?thesis by simp
  qed
  then show ?thesis
    unfolding same_content_keys dict_equiv_def by blast
qed

declare same_content.simps(1) [simp del]

lemma same_content_JDict_left: "same_content (JDict xs) b \<Longrightarrow> \<exists>ys. b = JDict ys"
  by (cases b) simp_all

lemma same_content_refl_scalar [simp]:
  "same_content JNull b = (b = JNull)" "same_content (JBool x) b = (b = JBool x)"
  "same_content (JInt i) b = (b = JInt i)" "same_content (JStr s) b = (b = JStr s)"
  by (cases b; auto)+

lemma same_content_JList_left: "same_content (JList xs) b \<Longrightarrow> \<exists>ys. b = JList ys"
  by (cases b) simp_all

lemma same_content_scalar:
  "same_content a b \<Longrightarrow> (\<forall>d. a \<noteq> JDict d) \<Longrightarrow> (\<forall>xs. a \<noteq> JList xs) \<Longrightarrow> a = b"
  by (cases a; cases b) simp_all

lemma same_content_JNull: "same_content a b \<Longrightarrow> (a = JNull) = (b = JNull)"
  by (cases a; cases b) simp_all

lemma dict_equiv_update:
  "dict_equiv xs ys \<Longrightarrow> same_content v w \<Longrightarrow> dict_equiv (AList.update k v xs) (AList.update k w ys)"
  by (simp add: dict_equiv_def update_conv')

lemma dict_equiv_delete: "dict_equiv xs ys \<Longrightarrow> dict_equiv (AList.delete k xs) (AList.delete k ys)"
  by (simp add: dict_equiv_def delete_conv')

lemma dict_equiv_has_key: "dict_equiv xs ys \<Longrightarrow> has_key xs k = has_key ys k"
  unfolding dict_equiv_def has_key_def
  by (metis option.rel_distinct(1) option.rel_distinct(2) option.exhaust)

lemma dict_equiv_lookup:
  "dict_equiv xs ys \<Longrightarrow> rel_option same_content (map_of xs k) (map_of ys k)"
  by (simp add: dict_equiv_def)

lemma same_content_JDict_right: "same_content a (JDict ys) \<Longrightarrow> \<exists>xs. a = JDict xs"
  by (cases a) simp_all

subsection \<open>Canonicalization respects key order\<close>

lemma strip_root_keys_equiv:
  "dict_equiv r r' \<Longrightarrow> dict_equiv (strip_root_keys r) (strip_root_keys r')"
  by (simp add: strip_root_keys_def dict_equiv_delete)

lemma ensure_data_equiv:
  assumes "dict_equiv r r'"
  shows "dict_equiv (ensure_data r) (ensure_data r')"
proof -
  have upd: "dict_equiv (AList.update ''data'' (JDict (strip_root_keys r)) r)
                        (AList.update ''data'' (JDict (strip_root_keys r')) r')"
    using assms by (simp add: dict_equiv_update same_content_dict strip_root_keys_equiv)
  have rel: "rel_option same_content (map_of r ''data'') (map_of r' ''data'')"
    using assms by (rule dict_equiv_lookup)
  show ?thesis
  proof (cases "map_of r ''data''")
    case None
    with rel have "map_of r' ''data'' = None" by (cases "map_of r' ''data''") simp_all
    with None upd show ?thesis by (simp add: ensure_data_def)
  next
    case (Some v)
    with rel obtain v' where v': "map_of r' ''data'' = Some v'" and sc: "same_content v v'"
      by (cases "map_of r' ''data''") simp_all
    show ?thesis
    proof (cases "\<exists>d. v = JDict d")
      case True
      then obtain d where d: "v = JDict d" ..
      with sc obtain d' where "v' = JDict d'" using same_content_JDict_left by blast
      with d Some v' assms show ?thesis by (simp add: ensure_data_def)
    next
      case False
      with sc have "\<not> (\<exists>d'. v' = JDict d')" using same_content_JDict_right by blast
      with False Some v' upd show ?thesis
        by (cases v; cases v') (simp_all add: ensure_data_def)
    qed
  qed
qed

lemma data_block_of_equiv:
  assumes "dict_equiv r r'"
  shows "dict_equiv (data_block_of r) (data_block_of r')"
proof -
  have nil: "dict_equiv [] []" by (simp add: dict_equiv_def)
  have rel: "rel_option same_content (map_of r ''data'') (map_of r' ''data'')"
    using assms by (rule dict_equiv_lookup)
  show ?thesis
  proof (cases "map_of r ''data''")
    case None
    with rel have "map_of r' ''data'' = None" by (cases "map_of r' ''data''") simp_all
    with None nil show ?thesis by (simp add: data_block_of_def)
  next
    case (Some v)
    with rel obtain v' where v': "map_of r' ''data'' = Some v'" and sc: "same_content v v'"
      by (cases "map_of r' ''data''") simp_all
    show ?thesis
    proof (cases "\<exists>d. v = JDict d")
      case True
      then obtain d where d: "v = JDict d" ..
      with sc obtain d' where d': "v' = JDict d'" using same_content_JDict_left by blast
      with d sc have "dict_equiv d d'" by (simp add: same_content_dict)
      with d d' Some v' show ?thesis by (simp add: data_block_of_def)
    next
      case False
      with sc have "\<not> (\<exists>d'. v' = JDict d')" using same_content_JDict_right by blast
      with False Some v' nil show ?thesis
        by (cases v; cases v') (simp_all add: data_block_of_def)
    qed
  qed
qed

lemma root_val_equiv:
  assumes "dict_equiv r r'"
  shows "same_content (root_val r f) (root_val r' f)"
proof -
  have a: "rel_option same_content (map_of r (find_root_key key_mapping f))
             (map_of r' (find_root_key key_mapping f))"
    using assms by (rule dict_equiv_lookup)
  have b: "rel_option same_content (map_of r f) (map_of r' f)"
    using assms by (rule dict_equiv_lookup)
  show ?thesis
    using a b by (auto simp: root_val_def option.rel_sel split: option.splits)
qed

lemma sync_field_equiv:
  assumes "dict_equiv r r'" "dict_equiv db db'"
  shows "dict_equiv (sync_field r db f) (sync_field r' db' f)"
proof -
  have rv: "same_content (root_val r f) (root_val r' f)"
    using assms(1) by (rule root_val_equiv)
  have "(root_val r f = JNull) = (root_val r' f = JNull)"
    using rv by (rule same_content_JNull)
  moreover have "has_key db f = has_key db' f"
    using assms(2) by (rule dict_equiv_has_key)
  ultimately show ?thesis
    using assms(2) rv by (simp add: sync_field_def dict_equiv_update)
qed

lemma sync_loop_equiv:
  "dict_equiv r r' \<Longrightarrow> dict_equiv db db' \<Longrightarrow>
   dict_equiv (foldl (sync_field r) db fs) (foldl (sync_field r') db' fs)"
  by (induction fs arbitrary: db db') (simp_all add: sync_field_equiv)

lemma relocate_equiv:
  assumes "dict_equiv r r'" "dict_equiv db db'"
  shows "dict_equiv (fst (relocate k (r, db))) (fst (relocate k (r', db'))) \<and>
         dict_equiv (snd (relocate k (r, db))) (snd (relocate k (r', db')))"
proof -
  have rel: "rel_option same_content (map_of r k) (map_of r' k)"
    using assms(1) by (rule dict_equiv_lookup)
  have hk: "has_key db k = has_key db' k"
    using assms(2) by (rule dict_equiv_has_key)
  show ?thesis
  proof (cases "map_of r k")
    case None
    with rel have "map_of r' k = None" by (cases "map_of r' k") simp_all
    with None assms show ?thesis by (simp add: relocate.simps)
  next
    case (Some v)
    with rel obtain v' where v': "map_of r' k = Some v'" and sc: "same_content v v'"
      by (cases "map_of r' k") simp_all
    with Some assms hk show ?thesis
      by (simp add: relocate.simps dict_equiv_delete dict_equiv_update)
  qed
qed

lemma normalize_dict_equiv:
  assumes "dict_equiv r r'"
  shows "dict_equiv (normalize_dict r) (normalize_dict r')"
proof -
  define c2 where "c2 = AList.update ''spec_version'' (JStr ''3.0'')
                 (AList.update ''spec'' (JStr ''chara_card_v3'') (ensure_data r))"
  define c2' where "c2' = AList.update ''spec_version'' (JStr ''3.0'')
                 (AList.update ''spec'' (JStr ''chara_card_v3'') (ensure_data r'))"
  define db1 where "db1 = foldl (sync_field c2) (data_block_of (ensure_data r)) core_fields"
  define db1' where "db1' = foldl (sync_field c2') (data_block_of (ensure_data r')) core_fields"
  define s1 where "s1 = relocate ''character_book'' (c2, db1)"
  define s1' where "s1' = relocate ''character_book'' (c2', db1')"
  define s2 where "s2 = relocate ''extensions'' (fst s1, snd s1)"
  define s2' where "s2' = relocate ''extensions'' (fst s1', snd s1')"
  have e1: "dict_equiv (ensure_data r) (ensure_data r')"
    using assms by (rule ensure_data_equiv)
  have e2: "dict_equiv c2 c2'"
    unfolding c2_def c2'_def using e1 by (simp add: dict_equiv_update)
  have e3: "dict_equiv db1 db1'"
    unfolding db1_def db1'_def using e2 e1 by (simp add: sync_loop_equiv data_block_of_equiv)
  have e4: "dict_equiv (fst s1) (fst s1') \<and> dict_equiv (snd s1) (snd s1')"
    unfolding s1_def s1'_def using e2 e3 by (rule relocate_equiv)
  have e5: "dict_equiv (fst s2) (fst s2') \<and> dict_equiv (snd s2) (snd s2')"
    unfolding s2_def s2'_def using e4 relocate_equiv[of "fst s1" "fst s1'" "snd s1" "snd s1'"]
    by blast
  have n: "normalize_dict r = AList.update ''data'' (JDict (strip_root_keys (snd s2))) (fst s2)"
    by (simp add: normalize_dict_def with_headers_def write_back_alt s2_def s1_def db1_def c2_def)
  have n': "normalize_dict r' = AList.update ''data'' (JDict (strip_root_keys (snd s2'))) (fst s2')"
    by (simp add: normalize_dict_def with_headers_def write_back_alt s2'_def s1'_def db1'_def c2'_def)
  show ?thesis
    unfolding n n' using e5
    by (simp add: dict_equiv_update same_content_dict strip_root_keys_equiv)
qed

lemma normalize_card_v3_equiv:
  assumes "same_content a b"
  shows "same_content (normalize_card_v3 a) (normalize_card_v3 b)"
proof (cases a)
  case (JDict xs)
  with assms obtain ys where ys: "b = JDict ys" using same_content_JDict_left by blast
  with JDict assms have "dict_equiv xs ys" by (simp add: same_content_dict)
  then have "dict_equiv (normalize_dict xs) (normalize_dict ys)" by (rule normalize_dict_equiv)
  with JDict ys show ?thesis by (simp add: same_content_dict)
next
  case (JList xs)
  with assms obtain ys where "b = JList ys" using same_content_JList_left by blast
  with JList assms show ?thesis by simp
qed (use assms in \<open>cases b; simp\<close>)+

subsection \<open>Canonicalization keeps keys distinct\<close>

lemma wf_lookup: "wf_json (JDict d) \<Longrightarrow> map_of d k = Some v \<Longrightarrow> wf_json v"
  by (auto simp: list_all_iff dest!: map_of_SomeD)

lemma set_update_subset: "set (AList.update k v d) \<subseteq> insert (k, v) (set d)"
  by (induction d) auto

lemma wf_update: "wf_json (JDict d) \<Longrightarrow> wf_json v \<Longrightarrow> wf_json (JDict (AList.update k v d))"
  using set_update_subset[of k v d] by (auto simp: list_all_iff distinct_update)

lemma wf_delete: "wf_json (JDict d) \<Longrightarrow> wf_json (JDict (AList.delete k d))"
proof -
  have "set (AList.delete k d) \<subseteq> set d" by (auto simp: AList.delete_eq)
  then show "wf_json (JDict d) \<Longrightarrow> wf_json (JDict (AList.delete k d))"
    by (auto simp: list_all_iff distinct_delete)
qed

lemma wf_strip_root_keys: "wf_json (JDict d) \<Longrightarrow> wf_json (JDict (strip_root_keys d))"
  by (simp add: strip_root_keys_def wf_delete del: wf_json.simps(1))

lemma wf_ensure_data: "wf_json (JDict r) \<Longrightarrow> wf_json (JDict (ensure_data r))"
  by (auto simp: ensure_data_def wf_update wf_strip_root_keys simp del: wf_json.simps(1)
      split: option.splits json.splits)

lemma wf_empty_dict: "wf_json (JDict [])"
  by simp

lemma wf_data_block_of: "wf_json (JDict r) \<Longrightarrow> wf_json (JDict (data_block_of r))"
  by (auto simp: data_block_of_def wf_lookup wf_empty_dict simp del: wf_json.simps(1)
      split: option.splits json.splits)

lemma wf_root_val: "wf_json (JDict r) \<Longrightarrow> wf_json (root_val r f)"
  by (auto simp: root_val_def wf_lookup simp del: wf_json.simps(1) split: option.splits)

lemma wf_sync_field:
  "wf_json (JDict r) \<Longrightarrow> wf_json (JDict db) \<Longrightarrow> wf_json (JDict (sync_field r db f))"
  by (simp add: sync_field_def wf_update wf_root_val del: wf_json.simps(1))

lemma wf_sync_loop:
  "wf_json (JDict r) \<Longrightarrow> wf_json (JDict db) \<Longrightarrow> wf_json (JDict (foldl (sync_field r) db fs))"
  by (induction fs arbitrary: db) (simp_all add: wf_sync_field del: wf_json.simps(1))

lemma wf_relocate:
  "wf_json (JDict r) \<Longrightarrow> wf_json (JDict db) \<Longrightarrow>
   wf_json (JDict (fst (relocate k (r, db)))) \<and> wf_json (JDict (snd (relocate k (r, db))))"
  by (auto simp: relocate.simps wf_delete wf_update wf_lookup simp del: wf_json.simps(1)
      split: option.splits)

lemma wf_normalize_dict:
  assumes "wf_json (JDict r)"
  shows "wf_json (JDict (normalize_dict r))"
proof -
  define c2 where "c2 = AList.update ''spec_version'' (JStr ''3.0'')
                 (AList.update ''spec'' (JStr ''chara_card_v3'') (ensure_data r))"
  define db1 where "db1 = foldl (sync_field c2) (data_block_of (ensure_data r)) core_fields"
  define s1 where "s1 = relocate ''character_book'' (c2, db1)"
  define s2 where "s2 = relocate ''extensions'' (fst s1, snd s1)"
  have w1: "wf_json (JDict (ensure_data r))" using assms by (rule wf_ensure_data)
  have w2: "wf_json (JDict c2)"
    unfolding c2_def using w1 by (simp add: wf_update del: wf_json.simps(1))
  have w3: "wf_json (JDict db1)"
    unfolding db1_def using w2 w1 by (simp add: wf_sync_loop wf_data_block_of del: wf_json.simps(1))
  have w4: "wf_json (JDict (fst s1)) \<and> wf_json (JDict (snd s1))"
    unfolding s1_def using w2 w3 by (rule wf_relocate)
  have w5: "wf_json (JDict (fst s2)) \<and> wf_json (JDict (snd s2))"
    unfolding s2_def using w4 wf_relocate[of "fst s1" "snd s1"] by blast
  have n: "normalize_dict r = AList.update ''data'' (JDict (strip_root_keys (snd s2))) (fst s2)"
    by (simp add: normalize_dict_def with_headers_def write_back_alt s2_def s1_def db1_def c2_def)
  show ?thesis
    unfolding n using w5 by (simp add: wf_update wf_strip_root_keys del: wf_json.simps(1))
qed

lemma wf_normalize_card_v3: "wf_json a \<Longrightarrow> wf_json (normalize_card_v3 a)"
  by (cases a) (simp_all add: wf_normalize_dict del: wf_json.simps(1))

subsection \<open>\<open>deterministic_sort\<close> forgets the key order\<close>

lemma priority_part_cong:
  "(\<And>k. map_of a k = map_of b k) \<Longrightarrow> priority_part a ks = priority_part b ks"
  by (induction ks) (simp_all split: option.splits)

lemma remaining_part_cong:
  "(\<And>k. map_of a k = map_of b k) \<Longrightarrow> remaining_part a ks = remaining_part b ks"
  by (induction ks) (simp_all split: option.splits)

lemma map_of_map_values:
  "map_of (map (\<lambda>p. (fst p, f (snd p))) d) k = map_option f (map_of d k)"
  by (induction d) auto

lemma map_fst_map_values: "map fst (map (\<lambda>p. (fst p, f (snd p))) d) = map fst d"
  by (induction d) auto

lemma dict_equiv_keys: "dict_equiv xs ys \<Longrightarrow> set (map fst xs) = set (map fst ys)"
proof -
  assume "dict_equiv xs ys"
  then have "\<And>k. (map_of xs k = None) = (map_of ys k = None)"
    using dict_equiv_has_key[of xs ys] unfolding has_key_def by blast
  then show ?thesis
    by (simp add: map_of_eq_None_iff set_eq_iff)
qed

lemma sorted_keys_eq:
  assumes "distinct (map fst xs)" "distinct (map fst ys)" "dict_equiv xs ys"
  shows "sort (map fst xs) = sort (map fst ys)"
proof (rule sorted_distinct_set_unique)
  show "set (sort (map fst xs)) = set (sort (map fst ys))"
    using dict_equiv_keys[OF assms(3)] by simp
qed (use assms in simp_all)

lemma map_eq_if_all2: "list_all2 (\<lambda>x y. f x = f y) xs ys \<Longrightarrow> map f xs = map f ys"
  by (induction rule: list_all2_induct) simp_all

lemma deterministic_sort_respects:
  "wf_json a \<Longrightarrow> wf_json b \<Longrightarrow> same_content a b \<Longrightarrow> deterministic_sort a = deterministic_sort b"
proof (induction a arbitrary: b rule: deterministic_sort.induct)
  case (1 obj)
  from "1.prems"(3) obtain obj' where b: "b = JDict obj'"
    using same_content_JDict_left by blast
  with "1.prems" have eq: "dict_equiv obj obj'" by (simp add: same_content_dict)
  let ?f = "\<lambda>p. (fst p, deterministic_sort (snd p))"
  have vals: "map_option deterministic_sort (map_of obj k) = map_option deterministic_sort (map_of obj' k)" for k
  proof (cases "map_of obj k")
    case None
    with dict_equiv_lookup[OF eq, of k] show ?thesis
      by (cases "map_of obj' k") simp_all
  next
    case (Some v)
    with dict_equiv_lookup[OF eq, of k] obtain v'
      where v': "map_of obj' k = Some v'" and sc: "same_content v v'"
      by (cases "map_of obj' k") simp_all
    have "(k, v) \<in> set obj" using Some by (rule map_of_SomeD)
    moreover have "wf_json v" using "1.prems"(1) Some by (rule wf_lookup)
    moreover have "wf_json v'" using "1.prems"(2) v' unfolding b by (rule wf_lookup)
    ultimately have "deterministic_sort v = deterministic_sort v'"
      using "1.IH"[of "(k, v)" v'] sc by simp
    with Some v' show ?thesis by simp
  qed
  have maps: "map_of (map ?f obj) k = map_of (map ?f obj') k" for k
    by (simp add: map_of_map_values vals)
  have keys: "sort (map fst obj) = sort (map fst obj')"
    using "1.prems"(1,2) eq unfolding b by (intro sorted_keys_eq) simp_all
  have "reorder (map ?f obj) = reorder (map ?f obj')"
    unfolding reorder_def map_fst_map_values keys
    using priority_part_cong[of "map ?f obj" "map ?f obj'", OF maps]
      remaining_part_cong[of "map ?f obj" "map ?f obj'", OF maps]
    by simp
  then show ?case by (simp add: b)
next
  case (2 xs)
  from "2.prems"(3) obtain ys where b: "b = JList ys"
    using same_content_JList_left by blast
  with "2.prems" have all2: "list_all2 same_content xs ys" by simp
  have "list_all2 (\<lambda>x y. deterministic_sort x = deterministic_sort y) xs ys"
    using all2
  proof (rule list.rel_mono_strong)
    fix x y assume "x \<in> set xs" "y \<in> set ys" "same_content x y"
    moreover from this "2.prems"(1,2) b have "wf_json x" "wf_json y"
      by (simp_all add: list_all_iff)
    ultimately show "deterministic_sort x = deterministic_sort y"
      using "2.IH" by blast
  qed
  then show ?case by (simp add: b map_eq_if_all2)
qed simp_all

subsection \<open>The content fingerprint\<close>

lemma dict_equiv_empty: "dict_equiv xs ys \<Longrightarrow> (xs = []) = (ys = [])"
  using dict_equiv_keys[of xs ys] by auto

lemma same_content_JStr_right: "same_content a (JStr k) \<Longrightarrow> a = JStr k"
  by (cases a) simp_all

lemma list_mem_JStr:
  "list_all2 same_content xs ys \<Longrightarrow> (JStr k \<in> set xs) = (JStr k \<in> set ys)"
  by (induction rule: list_all2_induct) (auto dest: same_content_JStr_right)

lemma hash_sorted_respects:
  "wf_json a \<Longrightarrow> wf_json b \<Longrightarrow> same_content a b \<Longrightarrow> hash_sorted a = hash_sorted b"
  by (simp add: hash_sorted_def deterministic_sort_respects)

lemma hash_same_content:
  assumes wa: "wf_json a" and wb: "wf_json b" and sc: "same_content a b"
  shows "calculate_data_hash now a = calculate_data_hash now b"
proof (cases a)
  case (JDict xs)
  with sc obtain ys where b: "b = JDict ys" using same_content_JDict_left by blast
  with JDict sc have eq: "dict_equiv xs ys" by (simp add: same_content_dict)
  have gate: "card_gate a = card_gate b"
    by (simp add: card_gate_def JDict b dict_equiv_has_key[OF eq])
  have tr: "truthy a = truthy b"
    by (simp add: JDict b dict_equiv_empty[OF eq])
  have n: "hash_sorted (normalize_card_v3 a) = hash_sorted (normalize_card_v3 b)"
    using wa wb sc by (intro hash_sorted_respects wf_normalize_card_v3 normalize_card_v3_equiv)
  have p: "hash_sorted a = hash_sorted b"
    using wa wb sc by (rule hash_sorted_respects)
  show ?thesis
    by (auto simp: calculate_data_hash_def gate tr n p split: sum.splits)
next
  case (JList xs)
  with sc obtain ys where b: "b = JList ys" using same_content_JList_left by blast
  with JList sc have all2: "list_all2 same_content xs ys" by simp
  have gate: "card_gate (JList xs) = card_gate (JList ys)"
    by (simp add: card_gate_def list_mem_JStr[OF all2])
  have tr: "(xs = []) = (ys = [])"
    using list_all2_lengthD[OF all2] by auto
  have p: "hash_sorted (JList xs) = hash_sorted (JList ys)"
    using wa wb sc unfolding JList b by (rule hash_sorted_respects)
  show ?thesis
    unfolding JList b by (auto simp: calculate_data_hash_def gate tr p split: sum.splits)
qed (use sc in simp_all)

lemma hash_of_card:
  "is_card d \<Longrightarrow> calculate_data_hash now d = hash_sorted (normalize_card_v3 d)"
  by (cases d) (auto simp: calculate_data_hash_def card_gate_def has_key_def)

text \<open>
  Claim C1, as the code has it.  Two documents with distinct keys get the same fingerprint
  when they differ only in key order, and also when both are recognised as cards (a
  \<open>name\<close> or \<open>data\<close> key at the root, the test the code makes before it canonicalizes) and
  their canonical forms differ only in key order.
\<close>

theorem calculate_data_hash_layout_invariant:
  assumes "wf_json d1" and "wf_json d2"
    and "same_content d1 d2 \<or>
         (is_card d1 \<and> is_card d2 \<and> same_content (normalize_card_v3 d1) (normalize_card_v3 d2))"
  shows "calculate_data_hash now d1 = calculate_data_hash now d2"
  using assms(3)
proof
  assume "same_content d1 d2"
  with assms(1,2) show ?thesis by (rule hash_same_content)
next
  assume h: "is_card d1 \<and> is_card d2 \<and> same_content (normalize_card_v3 d1) (normalize_card_v3 d2)"
  then have "hash_sorted (normalize_card_v3 d1) = hash_sorted (normalize_card_v3 d2)"
    using assms(1,2) by (intro hash_sorted_respects wf_normalize_card_v3) simp_all
  with h show ?thesis by (simp add: hash_of_card)
qed

lemma all_priority_eval:
  "all_priority =
     [''name'', ''description'', ''personality'', ''scenario'', ''first_mes'', ''mes_example'',
      ''creatorcomment'', ''avatar'', ''talkativeness'', ''fav'', ''tags'', ''spec'',
      ''spec_version'', ''data'', ''create_date'', ''creator_notes'', ''system_prompt'',
      ''post_history_instructions'', ''creator'', ''character_version'',
      ''alternate_greetings'', ''extensions'', ''group_only_greetings'', ''character_book'',
      ''id'', ''scriptName'', ''enabled'', ''disabled'', ''findRegex'', ''replaceString'',
      ''trimStrings'', ''placement'', ''runOnEdit'', ''markdownOnly'', ''promptOnly'',
      ''minDepth'', ''maxDepth'', ''substituteRegex'', ''type'', ''content'', ''info'',
      ''button'', ''top'', ''bottom'', ''left'', ''right'']"
  by (simp add: all_priority_def root_priority_def data_priority_def extension_priority_def)

lemmas normalize_eval = normalize_dict_def with_headers_def ensure_data_def data_block_of_def
  strip_root_keys_def relocate.simps sync_field_def root_val_def core_fields_def key_mapping_def has_key_def
  same_content.simps(1)

theorem calculate_data_hash_layout_invariant_witness:
  "wf_json legacy_card \<and> wf_json versioned_card \<and>
   is_card legacy_card \<and> is_card versioned_card \<and>
   same_content (normalize_card_v3 legacy_card) (normalize_card_v3 versioned_card) \<and>
   calculate_data_hash ''0.0'' legacy_card = calculate_data_hash ''0.0'' versioned_card"
proof -
  have w: "wf_json legacy_card" "wf_json versioned_card"
    by (simp_all add: legacy_card_def versioned_card_def)
  have c: "is_card legacy_card" "is_card versioned_card"
    by (simp_all add: legacy_card_def versioned_card_def has_key_def)
  have s: "same_content (normalize_card_v3 legacy_card) (normalize_card_v3 versioned_card)"
    by (simp add: legacy_card_def versioned_card_def normalize_eval)
  from calculate_data_hash_layout_invariant[OF w, of "''0.0''"] c s
  have "calculate_data_hash ''0.0'' legacy_card = calculate_data_hash ''0.0'' versioned_card"
    by blast
  with w c s show ?thesis by blast
qed

lemma nameless_card_bytes:
  "calculate_data_hash ''0.0'' nameless_card = hexdigest [123, 34, 100, 101, 115, 99, 114, 105, 112, 116, 105, 111, 110, 34, 58, 34, 120, 34, 125]"
  by (simp add: calculate_data_hash_def card_gate_def hash_sorted_def nameless_card_def
      has_key_def reorder_def all_priority_eval json_string_def json_escape_char_def encode_utf8_def)

lemma nameless_card_v3_bytes:
  "calculate_data_hash ''0.0'' nameless_card_v3 = hexdigest [123, 34, 100, 101, 115, 99, 114, 105, 112, 116, 105, 111, 110, 34, 58, 34, 120, 34, 44, 34, 115, 112, 101, 99, 34, 58, 34, 99, 104, 97, 114, 97, 95, 99, 97, 114, 100, 95, 118, 51, 34, 44, 34, 115, 112, 101, 99, 95, 118, 101, 114, 115, 105, 111, 110, 34, 58, 34, 51, 46, 48, 34, 44, 34, 100, 97, 116, 97, 34, 58, 123, 34, 100, 101, 115, 99, 114, 105, 112, 116, 105, 111, 110, 34, 58, 34, 120, 34, 125, 125]"
  by (simp add: calculate_data_hash_def card_gate_def hash_sorted_def nameless_card_v3_def
      normalize_eval reorder_def all_priority_eval json_string_def json_escape_char_def encode_utf8_def)

lemma md5_nameless_card: "hexdigest [123, 34, 100, 101, 115, 99, 114, 105, 112, 116, 105, 111, 110, 34, 58, 34, 120, 34, 125] = ''a413de1193e8ed191b135fdc04a9a1cb''"
  by (simp add: md5_eval)

lemma md5_nameless_card_v3: "hexdigest [123, 34, 100, 101, 115, 99, 114, 105, 112, 116, 105, 111, 110, 34, 58, 34, 120, 34, 44, 34, 115, 112, 101, 99, 34, 58, 34, 99, 104, 97, 114, 97, 95, 99, 97, 114, 100, 95, 118, 51, 34, 44, 34, 115, 112, 101, 99, 95, 118, 101, 114, 115, 105, 111, 110, 34, 58, 34, 51, 46, 48, 34, 44, 34, 100, 97, 116, 97, 34, 58, 123, 34, 100, 101, 115, 99, 114, 105, 112, 116, 105, 111, 110, 34, 58, 34, 120, 34, 125, 125] = ''bf36fdce5a214044ab17c029d0781e1f''"
  by (simp add: md5_eval)

theorem calculate_data_hash_counterexample:
  "wf_json nameless_card \<and> wf_json nameless_card_v3 \<and>
   normalize_card_v3 nameless_card = nameless_card_v3 \<and>
   same_content (normalize_card_v3 nameless_card) (normalize_card_v3 nameless_card_v3) \<and>
   calculate_data_hash ''0.0'' nameless_card \<noteq> calculate_data_hash ''0.0'' nameless_card_v3"
proof -
  have "wf_json nameless_card" "wf_json nameless_card_v3"
    by (simp_all add: nameless_card_def nameless_card_v3_def)
  moreover have "normalize_card_v3 nameless_card = nameless_card_v3"
    by (simp add: nameless_card_def nameless_card_v3_def normalize_eval)
  moreover have "same_content (normalize_card_v3 nameless_card) (normalize_card_v3 nameless_card_v3)"
    by (simp add: nameless_card_def nameless_card_v3_def normalize_eval)
  moreover have "calculate_data_hash ''0.0'' nameless_card \<noteq> calculate_data_hash ''0.0'' nameless_card_v3"
    by (simp add: nameless_card_bytes nameless_card_v3_bytes md5_nameless_card md5_nameless_card_v3)
  ultimately show ?thesis by blast
qed

lemmas OP_defs = OP_EQ_def OP_NEQ_def OP_CONTAINS_def OP_NOT_CONTAINS_def OP_REGEX_def
  OP_EXISTS_def OP_NOT_EXISTS_def OP_GT_def OP_LT_def OP_TRUE_def OP_FALSE_def

subsection \<open>Frame of \<open>evaluate\<close>\<close>

lemma precompute_wi_frame:
  "precompute_wi root = Inr root' \<Longrightarrow>
   root' = root \<or> (\<exists>text. root' = AList.update ''character_book_content'' (JStr text) root)"
  by (auto simp: precompute_wi_def split: if_splits sum.splits option.splits)

lemma evaluate_card_frame:
  "fst (evaluate_card lib c rs) = c \<or>
   (\<exists>root text. c = JDict root \<and>
      fst (evaluate_card lib c rs) = JDict (AList.update ''character_book_content'' (JStr text) root))"
proof (cases c)
  case (JDict root)
  show ?thesis
  proof (cases "precompute_wi root")
    case (Inl e)
    with JDict show ?thesis by simp
  next
    case (Inr root')
    with JDict precompute_wi_frame[OF Inr] show ?thesis by auto
  qed
qed simp_all

lemma evaluate_card_result:
  "(\<exists>e. snd (evaluate_card lib c rs) = Inl e) \<or>
   (\<exists>actions. snd (evaluate_card lib c rs) = Inr (plan_of actions))"
  by (cases c) (auto simp: evaluate_rules_def split: sum.splits)

subsection \<open>Operator \<open>eq\<close> on sequences\<close>

lemma str_contains_char: "str_contains t [c] = (c \<in> set t)"
  by (induction t) auto

lemma check_condition_eq_list:
  "check_condition lib (JList vs) OP_EQ (JStr t) cs =
     (sort (map (\<lambda>v. py_lower lib (py_str v)) vs) =
      sort (if CHR '','' \<in> set t
            then map (\<lambda>t. py_lower lib (py_strip lib t)) (split_on (CHR '','') t)
            else [if truthy cs then t else py_lower lib t]))"
  by (simp add: check_condition_def check_condition_body_def OP_defs list_eq_def target_list_def
      str_contains_char)

lemmas str_eval = is_ascii_def py_lower_def lower_char_def py_strip_def is_space_def

text \<open>
  Claim C5 at the input where the code departs from it.  With \<open>case_sensitive\<close> set and a target
  without a comma, the value list is lower-cased and the target is not: the value \<open>["a"]\<close>
  does not equal the target \<open>"A"\<close>, although both lower-cased lists are \<open>["a"]\<close>.
\<close>

theorem check_condition_eq_case_slip:
  "check_condition lib (JList [JStr ''a'']) OP_EQ (JStr ''A'') (JBool True) = False \<and>
   sort (map (\<lambda>v. py_lower lib (py_str v)) [JStr ''a'']) =
     sort (map (py_lower lib) (split_on (CHR '','') ''A''))"
  by (simp add: check_condition_eq_list str_eval)

lemma check_condition_eq_example:
  "check_condition lib (JList [JStr ''a'', JStr ''b'']) OP_EQ (JStr ''b,a'') (JBool False)"
  by (simp add: check_condition_eq_list str_eval)

subsection \<open>Rules in order, \<open>stop_on_match\<close>\<close>

lemma run_rules_prefix:
  "\<forall>r \<in> set before. \<exists>out. eval_rule lib c r = Inr out \<and> \<not> stops out \<Longrightarrow>
   run_rules lib c (before @ rest) acc =
     run_rules lib c rest (acc @ concat (map (\<lambda>r. actions_of (eval_rule lib c r)) before))"
proof (induction before arbitrary: acc)
  case Nil
  then show ?case by simp
next
  case (Cons r before)
  then obtain out where out: "eval_rule lib c r = Inr out" "\<not> stops out" by auto
  from Cons have IH: "\<And>acc. run_rules lib c (before @ rest) acc =
     run_rules lib c rest (acc @ concat (map (\<lambda>r. actions_of (eval_rule lib c r)) before))"
    by simp
  show ?case
    using out by (cases out) (simp_all add: IH)
qed

text \<open>
  Claim C6.  Let the rules before \<open>rule\<close> all be evaluated without ending the loop, and let
  \<open>rule\<close> match with \<open>stop_on_match\<close> set.  Then the plan holds the actions of the matching
  rules among those before it, in order, followed by the actions of \<open>rule\<close>, and nothing of
  the rules after it, whatever they are.
\<close>

theorem evaluate_stop_on_match:
  assumes "precompute_wi root = Inr root'"
    and "py_get rs ''rules'' (JList []) = Inr (JList (before @ rule # later))"
    and "\<forall>r \<in> set before. \<exists>out. eval_rule lib (JDict root') r = Inr out \<and> \<not> stops out"
    and "eval_rule lib (JDict root') rule = Inr (Matched actions True)"
  shows "evaluate lib \<lparr>st_card = JDict root, st_ruleset = rs\<rparr> =
     (\<lparr>st_card = JDict root', st_ruleset = rs\<rparr>,
      Inr (plan_of (concat (map (\<lambda>r. actions_of (eval_rule lib (JDict root') r)) before)
                    @ actions)))"
proof -
  have "run_rules lib (JDict root') (before @ rule # later) [] =
          Inr (concat (map (\<lambda>r. actions_of (eval_rule lib (JDict root') r)) before) @ actions)"
    using run_rules_prefix[OF assms(3), of "rule # later" "[]"] assms(4) by simp
  then show ?thesis
    using assms(1,2) by (simp add: evaluate_def evaluate_rules_def)
qed

lemmas engine_eval = eval_rule_def eval_enabled_rule_def normalized_groups_def collect_actions_def
  eval_group_def eval_condition_def combine_def FIELD_MAP_def get_field_value_def get_generic_def
  check_condition_def check_condition_body_def OP_defs list_eq_def target_list_def
  str_contains_char py_upper_def upper_char_def str_eval

lemma rule_A_matches: "eval_rule no_lib (JDict foo_root) rule_A = Inr (Matched [add_tag_x] True)"
  by (simp add: rule_A_def foo_root_def engine_eval)

lemma rule_B_matches: "eval_rule no_lib (JDict foo_root) rule_B = Inr (Matched [set_fav] False)"
  by (simp add: rule_B_def foo_root_def engine_eval)

lemma foo_precompute: "precompute_wi foo_root = Inr foo_root"
  by (simp add: precompute_wi_def foo_root_def)

theorem evaluate_stop_on_match_witness:
  "eval_rule no_lib (JDict foo_root) rule_A = Inr (Matched [add_tag_x] True) \<and>
   eval_rule no_lib (JDict foo_root) rule_B = Inr (Matched [set_fav] False) \<and>
   evaluate no_lib \<lparr>st_card = JDict foo_root, st_ruleset = JDict [(''rules'', JList [rule_A, rule_B])]\<rparr> =
     (\<lparr>st_card = JDict foo_root, st_ruleset = JDict [(''rules'', JList [rule_A, rule_B])]\<rparr>,
      Inr (plan_of [add_tag_x])) \<and>
   evaluate no_lib \<lparr>st_card = JDict foo_root,
                     st_ruleset = JDict [(''rules'', JList [rule_B, rule_A, JNull])]\<rparr> =
     (\<lparr>st_card = JDict foo_root, st_ruleset = JDict [(''rules'', JList [rule_B, rule_A, JNull])]\<rparr>,
      Inr (plan_of [set_fav, add_tag_x]))"
proof -
  have one: "evaluate no_lib \<lparr>st_card = JDict foo_root,
        st_ruleset = JDict [(''rules'', JList [rule_A, rule_B])]\<rparr> =
     (\<lparr>st_card = JDict foo_root, st_ruleset = JDict [(''rules'', JList [rule_A, rule_B])]\<rparr>,
      Inr (plan_of [add_tag_x]))"
    using evaluate_stop_on_match[of foo_root foo_root "JDict [(''rules'', JList [rule_A, rule_B])]"
        "[]" rule_A "[rule_B]" no_lib "[add_tag_x]"]
    by (simp add: foo_precompute rule_A_matches)
  have two: "evaluate no_lib \<lparr>st_card = JDict foo_root,
        st_ruleset = JDict [(''rules'', JList [rule_B, rule_A, JNull])]\<rparr> =
     (\<lparr>st_card = JDict foo_root, st_ruleset = JDict [(''rules'', JList [rule_B, rule_A, JNull])]\<rparr>,
      Inr (plan_of [set_fav, add_tag_x]))"
    using evaluate_stop_on_match[of foo_root foo_root
        "JDict [(''rules'', JList [rule_B, rule_A, JNull])]"
        "[rule_B]" rule_A "[JNull]" no_lib "[add_tag_x]"]
    by (simp add: foo_precompute rule_A_matches rule_B_matches)
  show ?thesis
    using one two rule_A_matches rule_B_matches by blast
qed

subsection \<open>Empty rules and empty groups\<close>

lemma eval_rule_no_groups:
  "\<not> truthy (normalized_groups (JDict r)) \<Longrightarrow> eval_rule lib c (JDict r) = Inr Skipped"
  by (simp add: eval_rule_def eval_enabled_rule_def)

lemma eval_group_no_conditions:
  assumes "\<not> truthy (get_or (JDict g) ''conditions'' (JList []))"
  shows "eval_group lib c (JDict g) \<noteq> Inr True"
    and "get_or (JDict g) ''logic'' (JStr ''AND'') = JStr s \<Longrightarrow> eval_group lib c (JDict g) = Inr False"
  using assms by (auto simp: eval_group_def split: sum.splits)

text \<open>
  Claim C7.  A rule (a mapping) whose normalized group list is empty is skipped: it leaves the
  plan as it is, whatever its other fields hold.  A group (a mapping) without conditions never
  evaluates to true, and evaluates to false whenever its \<open>logic\<close> is absent or a string, so
  that \<open>upper()\<close> applies.
\<close>

theorem empty_rule_skipped_empty_group_false:
  "(\<not> truthy (normalized_groups (JDict r)) \<longrightarrow>
      eval_rule lib c (JDict r) = Inr Skipped \<and>
      run_rules lib c (JDict r # rules) acc = run_rules lib c rules acc) \<and>
   (\<not> truthy (get_or (JDict g) ''conditions'' (JList [])) \<longrightarrow>
      eval_group lib c (JDict g) \<noteq> Inr True \<and>
      ((\<exists>s. get_or (JDict g) ''logic'' (JStr ''AND'') = JStr s) \<longrightarrow>
         eval_group lib c (JDict g) = Inr False))"
  using eval_group_no_conditions[where g = g and lib = lib and c = c]
  by (auto simp: eval_rule_no_groups)

theorem empty_rule_skipped_empty_group_false_witness:
  "\<not> truthy (normalized_groups (JDict empty_rule)) \<and>
   eval_rule no_lib (JDict foo_root) (JDict empty_rule) = Inr Skipped \<and>
   run_rules no_lib (JDict foo_root) [JDict empty_rule, rule_B] [] = Inr [set_fav] \<and>
   \<not> truthy (get_or (JDict empty_group) ''conditions'' (JList [])) \<and>
   get_or (JDict empty_group) ''logic'' (JStr ''AND'') = JStr ''or'' \<and>
   eval_group no_lib (JDict foo_root) (JDict empty_group) = Inr False"
proof -
  have r: "\<not> truthy (normalized_groups (JDict empty_rule))"
    by (simp add: normalized_groups_def empty_rule_def)
  have g: "\<not> truthy (get_or (JDict empty_group) ''conditions'' (JList []))"
    "get_or (JDict empty_group) ''logic'' (JStr ''AND'') = JStr ''or''"
    by (simp_all add: empty_group_def)
  have rest: "run_rules no_lib (JDict foo_root) [rule_B] [] = Inr [set_fav]"
    by (simp add: rule_B_matches)
  from empty_rule_skipped_empty_group_false
      [of empty_rule no_lib "JDict foo_root" "[rule_B]" "[]" empty_group] r g rest
  show ?thesis by auto
qed

subsection \<open>The \<open>enabled\<close> field\<close>

lemma eval_rule_enabled:
  "map_of r ''enabled'' = None \<or> (\<exists>v. map_of r ''enabled'' = Some v \<and> truthy v) \<Longrightarrow>
   eval_rule lib c (JDict r) = eval_enabled_rule lib c (JDict r)"
  by (auto simp: eval_rule_def)

lemma eval_rule_disabled:
  "map_of r ''enabled'' = Some v \<Longrightarrow> \<not> truthy v \<Longrightarrow> eval_rule lib c (JDict r) = Inr Skipped"
  by (simp add: eval_rule_def)

lemma normalized_groups_ignores_enabled:
  "normalized_groups (JDict ((''enabled'', v) # r)) = normalized_groups (JDict r)"
  by (simp add: normalized_groups_def)

lemma collect_actions_ignores_enabled:
  "collect_actions (JDict ((''enabled'', v) # r)) = collect_actions (JDict r)"
  by (simp add: collect_actions_def split: sum.splits)

lemma eval_enabled_rule_ignores_enabled:
  "eval_enabled_rule lib c (JDict ((''enabled'', v) # r)) = eval_enabled_rule lib c (JDict r)"
  unfolding eval_enabled_rule_def normalized_groups_ignores_enabled collect_actions_ignores_enabled
  by simp

lemma eval_enabled_rule_groups:
  assumes "normalized_groups (JDict r) = JList gs" and "gs \<noteq> []"
    and "py_upper_of lib (get_or (JDict r) ''logic'' (JStr ''OR'')) = Inr logic"
    and "eval_groups lib c gs = Inr results"
    and "py_iter (get_or (JDict r) ''actions'' (JList [])) = Inr acts"
  shows "eval_enabled_rule lib c (JDict r) =
     Inr (if combine logic results
          then Matched acts (truthy (get_or (JDict r) ''stop_on_match'' JNull))
          else NotMatched)"
  using assms by (simp add: eval_enabled_rule_def collect_actions_def del: get_or.simps)

lemma eval_enabled_rule_skipped:
  "eval_enabled_rule lib c rule = Inr Skipped \<Longrightarrow> \<not> truthy (normalized_groups rule)"
  by (auto simp: eval_enabled_rule_def collect_actions_def split: if_splits sum.splits)

text \<open>
  Claim C9, amended.  The test of the \<open>enabled\<close> field is Python truthiness with the default
  \<open>True\<close>, so the rules skipped by it are those whose field is present and falsy (\<open>false\<close>,
  \<open>null\<close>, \<open>0\<close>, an empty string, list or mapping), not only those where it is \<open>false\<close>.

  \<^item> A rule whose field is absent or truthy is evaluated: with a non-empty group list, a top
    logic that is a string and groups that evaluate without an exception, it matches exactly
    when the results of its groups combine to true under its logic, and then contributes its
    actions and its \<open>stop_on_match\<close> flag.  A rule without the key has the outcome of the same
    rule with \<open>enabled\<close> set to \<open>true\<close>.
  \<^item> A rule whose field is present and falsy is skipped, and the loop goes on with the next
    rule and the same plan.
  \<^item> A rule is skipped only for that reason or because it has no groups.
\<close>

theorem enabled_truthiness:
  "(map_of r ''enabled'' = None \<or> (\<exists>v. map_of r ''enabled'' = Some v \<and> truthy v) \<longrightarrow>
      (normalized_groups (JDict r) = JList gs \<and> gs \<noteq> [] \<and>
       py_upper_of lib (get_or (JDict r) ''logic'' (JStr ''OR'')) = Inr logic \<and>
       eval_groups lib c gs = Inr results \<and>
       py_iter (get_or (JDict r) ''actions'' (JList [])) = Inr acts \<longrightarrow>
       eval_rule lib c (JDict r) =
         Inr (if combine logic results
              then Matched acts (truthy (get_or (JDict r) ''stop_on_match'' JNull))
              else NotMatched))) \<and>
   (map_of r ''enabled'' = None \<longrightarrow>
      eval_rule lib c (JDict r) = eval_rule lib c (JDict ((''enabled'', JBool True) # r))) \<and>
   ((\<exists>v. map_of r ''enabled'' = Some v \<and> \<not> truthy v) \<longrightarrow>
      eval_rule lib c (JDict r) = Inr Skipped \<and>
      run_rules lib c (JDict r # rules) plan_actions = run_rules lib c rules plan_actions) \<and>
   (eval_rule lib c (JDict r) = Inr Skipped \<longrightarrow>
      (\<exists>v. map_of r ''enabled'' = Some v \<and> \<not> truthy v) \<or> \<not> truthy (normalized_groups (JDict r)))"
proof -
  have evaluated: "eval_rule lib c (JDict r) =
         Inr (if combine logic results
              then Matched acts (truthy (get_or (JDict r) ''stop_on_match'' JNull))
              else NotMatched)"
    if "map_of r ''enabled'' = None \<or> (\<exists>v. map_of r ''enabled'' = Some v \<and> truthy v)"
      and "normalized_groups (JDict r) = JList gs" "gs \<noteq> []"
      and "py_upper_of lib (get_or (JDict r) ''logic'' (JStr ''OR'')) = Inr logic"
      and "eval_groups lib c gs = Inr results"
      and "py_iter (get_or (JDict r) ''actions'' (JList [])) = Inr acts"
    unfolding eval_rule_enabled[OF that(1)] by (rule eval_enabled_rule_groups[OF that(2-6)])
  have as_true: "eval_rule lib c (JDict r) = eval_rule lib c (JDict ((''enabled'', JBool True) # r))"
    if "map_of r ''enabled'' = None"
  proof -
    have "eval_rule lib c (JDict ((''enabled'', JBool True) # r)) =
            eval_enabled_rule lib c (JDict ((''enabled'', JBool True) # r))"
      by (rule eval_rule_enabled) simp
    then show ?thesis
      using that by (simp add: eval_rule_enabled eval_enabled_rule_ignores_enabled)
  qed
  have skipped: "eval_rule lib c (JDict r) = Inr Skipped \<and>
      run_rules lib c (JDict r # rules) plan_actions = run_rules lib c rules plan_actions"
    if "\<exists>v. map_of r ''enabled'' = Some v \<and> \<not> truthy v"
    using that by (auto simp: eval_rule_disabled)
  have only: "(\<exists>v. map_of r ''enabled'' = Some v \<and> \<not> truthy v) \<or> \<not> truthy (normalized_groups (JDict r))"
    if "eval_rule lib c (JDict r) = Inr Skipped"
  proof (cases "map_of r ''enabled'' = None \<or> (\<exists>v. map_of r ''enabled'' = Some v \<and> truthy v)")
    case True
    from that have "eval_enabled_rule lib c (JDict r) = Inr Skipped"
      unfolding eval_rule_enabled[OF True] .
    then show ?thesis
      by (simp add: eval_enabled_rule_skipped)
  next
    case False
    then show ?thesis by auto
  qed
  from evaluated as_true skipped only show ?thesis by blast
qed

theorem enabled_truthiness_witness:
  "map_of rule_B_fields ''enabled'' = None \<and>
   normalized_groups (JDict rule_B_fields) = JList [name_exists_group] \<and>
   py_upper_of no_lib (get_or (JDict rule_B_fields) ''logic'' (JStr ''OR'')) = Inr ''OR'' \<and>
   eval_groups no_lib (JDict foo_root) [name_exists_group] = Inr [True] \<and>
   py_iter (get_or (JDict rule_B_fields) ''actions'' (JList [])) = Inr [set_fav] \<and>
   eval_rule no_lib (JDict foo_root) (JDict rule_B_fields) = Inr (Matched [set_fav] False) \<and>
   eval_rule no_lib (JDict foo_root) (JDict ((''enabled'', JBool True) # rule_B_fields)) =
     Inr (Matched [set_fav] False) \<and>
   map_of disabled_rule ''enabled'' = Some (JBool False) \<and>
   eval_rule no_lib (JDict foo_root) (JDict disabled_rule) = Inr Skipped \<and>
   run_rules no_lib (JDict foo_root) [JDict disabled_rule, rule_B] [] = Inr [set_fav] \<and>
   truthy (normalized_groups (JDict disabled_rule))"
proof -
  have a: "map_of rule_B_fields ''enabled'' = None"
    by (simp add: rule_B_fields_def)
  have g: "normalized_groups (JDict rule_B_fields) = JList [name_exists_group]"
    by (simp add: rule_B_fields_def normalized_groups_def name_exists_group_def)
  have l: "py_upper_of no_lib (get_or (JDict rule_B_fields) ''logic'' (JStr ''OR'')) = Inr ''OR''"
    by (simp add: rule_B_fields_def py_upper_def upper_char_def is_ascii_def)
  have e: "eval_groups no_lib (JDict foo_root) [name_exists_group] = Inr [True]"
    by (simp add: name_exists_group_def foo_root_def engine_eval)
  have i: "py_iter (get_or (JDict rule_B_fields) ''actions'' (JList [])) = Inr [set_fav]"
    by (simp add: rule_B_fields_def)
  have c: "combine ''OR'' [True]"
    by (simp add: combine_def)
  have s: "get_or (JDict rule_B_fields) ''stop_on_match'' JNull = JNull"
    by (simp add: rule_B_fields_def)
  have b: "map_of disabled_rule ''enabled'' = Some (JBool False)"
    by (simp add: disabled_rule_def)
  have n: "truthy (normalized_groups (JDict disabled_rule))"
    by (simp add: disabled_rule_def normalized_groups_def)
  have rest: "run_rules no_lib (JDict foo_root) [rule_B] [] = Inr [set_fav]"
    by (simp add: rule_B_matches)
  note absent = enabled_truthiness[where r = rule_B_fields and lib = no_lib and c = "JDict foo_root"
        and gs = "[name_exists_group]" and logic = "''OR''" and results = "[True]"
        and acts = "[set_fav]"]
  from absent a g l e i
  have "eval_rule no_lib (JDict foo_root) (JDict rule_B_fields) =
     Inr (if combine ''OR'' [True]
          then Matched [set_fav] (truthy (get_or (JDict rule_B_fields) ''stop_on_match'' JNull))
          else NotMatched)"
    by blast
  with c s have m: "eval_rule no_lib (JDict foo_root) (JDict rule_B_fields) = Inr (Matched [set_fav] False)"
    by (simp del: get_or.simps)
  from absent a
  have "eval_rule no_lib (JDict foo_root) (JDict rule_B_fields) =
     eval_rule no_lib (JDict foo_root) (JDict ((''enabled'', JBool True) # rule_B_fields))"
    by blast
  with m have one: "eval_rule no_lib (JDict foo_root) (JDict rule_B_fields) = Inr (Matched [set_fav] False) \<and>
     eval_rule no_lib (JDict foo_root) (JDict ((''enabled'', JBool True) # rule_B_fields)) =
       Inr (Matched [set_fav] False)"
    by simp
  have two: "eval_rule no_lib (JDict foo_root) (JDict disabled_rule) = Inr Skipped \<and>
     run_rules no_lib (JDict foo_root) [JDict disabled_rule, rule_B] [] = Inr [set_fav]"
    using b rest
      enabled_truthiness[where r = disabled_rule and lib = no_lib and c = "JDict foo_root"
        and rules = "[rule_B]" and plan_actions = "[]"]
    by simp
  from a g l e i b n one two show ?thesis by blast
qed

text \<open>
  The claim as it was stated, with only an explicit \<open>false\<close> skipped, fails on a rule whose
  \<open>enabled\<close> field is \<open>null\<close>: the field is not \<open>false\<close>, the conditions of the rule hold on the
  card, and the rule is skipped all the same, leaving the plan empty.
\<close>

theorem enabled_null_counterexample:
  "map_of null_enabled_rule ''enabled'' = Some JNull \<and>
   JNull \<noteq> JBool False \<and>
   eval_enabled_rule no_lib (JDict foo_root) (JDict null_enabled_rule) = Inr (Matched [set_fav] False) \<and>
   eval_rule no_lib (JDict foo_root) (JDict null_enabled_rule) = Inr Skipped \<and>
   evaluate no_lib \<lparr>st_card = JDict foo_root,
                     st_ruleset = JDict [(''rules'', JList [JDict null_enabled_rule])]\<rparr> =
     (\<lparr>st_card = JDict foo_root,
       st_ruleset = JDict [(''rules'', JList [JDict null_enabled_rule])]\<rparr>, Inr (plan_of []))"
  by (simp add: null_enabled_rule_def foo_root_def engine_eval evaluate_def evaluate_rules_def
      precompute_wi_def)

subsection \<open>Shaped inputs raise nothing\<close>

lemma is_dict_py_get: "is_dict j \<Longrightarrow> \<exists>v. py_get j k dflt = Inr v"
  by (cases j) simp_all

lemma get_field_value_shaped:
  assumes "shaped_card c"
  shows "\<exists>v. get_field_value c (JStr f) target = Inr v"
proof -
  from assms obtain d where c: "c = JDict d" by (cases c) simp_all
  from assms c obtain book where book: "get_or (JDict d) ''character_book'' (JDict []) = JDict book"
    by (cases "get_or (JDict d) ''character_book'' (JDict [])") (simp_all del: get_or.simps)
  from assms c obtain ext where ext: "get_or (JDict d) ''extensions'' (JDict []) = JDict ext"
    by (cases "get_or (JDict d) ''extensions'' (JDict [])") (simp_all del: get_or.simps)
  have b: "py_get (JDict d) ''character_book'' (JDict []) = Inr (JDict book)"
    using book by simp
  have e: "py_get (JDict d) ''extensions'' (JDict []) = Inr (JDict ext)"
    using ext by simp
  have generic: "\<exists>v. get_generic (JDict d) (JStr f) = Inr v"
    by (simp add: get_generic_def)
  show ?thesis
    unfolding c get_field_value_def get_regex_scripts_def get_world_info_def
      get_helper_scripts_def b e
    using generic by simp
qed

lemma eval_condition_shaped:
  assumes "shaped_card c" "shaped_condition cond"
  shows "\<exists>res. eval_condition lib c cond = Inr res"
proof -
  from assms(2) obtain d where d: "cond = JDict d" by (cases cond) simp_all
  from assms(2) d obtain f where f: "map_of d ''field'' = Some (JStr f)"
    by (cases "map_of d ''field''"; cases "get_or (JDict d) ''field'' JNull") auto
  from assms(2) d obtain operator where o: "map_of d ''operator'' = Some operator"
    by (auto simp: has_key_def)
  obtain m where m: "field_map_get (JStr f) = Inr (JStr m)"
    by (cases "map_of FIELD_MAP f") simp_all
  from get_field_value_shaped[OF assms(1), of m "JStr f"]
  obtain v where v: "get_field_value c (JStr m) (JStr f) = Inr v" ..
  show ?thesis
    unfolding d eval_condition_def by (simp add: f o m v del: field_map_get.simps)
qed

lemma eval_conditions_shaped:
  "shaped_card c \<Longrightarrow> list_all shaped_condition conds \<Longrightarrow>
   \<exists>res. eval_conditions lib c conds = Inr res"
proof (induction conds)
  case Nil
  then show ?case by simp
next
  case (Cons cond conds)
  then obtain r rs where "eval_condition lib c cond = Inr r" "eval_conditions lib c conds = Inr rs"
    using eval_condition_shaped[of c cond lib] by auto
  then show ?case by simp
qed

lemma eval_group_shaped:
  assumes "shaped_card c" "shaped_group g"
  shows "\<exists>res. eval_group lib c g = Inr res"
proof -
  from assms(2) obtain d where d: "g = JDict d" by (cases g) simp_all
  from assms(2) d obtain s where s: "get_or (JDict d) ''logic'' (JStr ''AND'') = JStr s"
    by (cases "get_or (JDict d) ''logic'' (JStr ''AND'')") (simp_all del: get_or.simps)
  have pg: "py_get (JDict d) ''conditions'' (JList []) = Inr (get_or (JDict d) ''conditions'' (JList []))"
    by simp
  show ?thesis
  proof (cases "truthy (get_or (JDict d) ''conditions'' (JList []))")
    case False
    then show ?thesis
      unfolding d eval_group_def pg s by auto
  next
    case True
    with assms(2) d obtain conds
      where cs: "get_or (JDict d) ''conditions'' (JList []) = JList conds"
        and ok: "list_all shaped_condition conds"
      by (cases "get_or (JDict d) ''conditions'' (JList [])") (simp_all del: get_or.simps)
    from eval_conditions_shaped[OF assms(1) ok, of lib]
    obtain rs where "eval_conditions lib c conds = Inr rs" ..
    then show ?thesis
      unfolding d eval_group_def pg s cs by auto
  qed
qed

lemma eval_groups_shaped:
  "shaped_card c \<Longrightarrow> list_all shaped_group gs \<Longrightarrow> \<exists>res. eval_groups lib c gs = Inr res"
proof (induction gs)
  case Nil
  then show ?case by simp
next
  case (Cons g gs)
  then obtain r rs where "eval_group lib c g = Inr r" "eval_groups lib c gs = Inr rs"
    using eval_group_shaped[of c g lib] by auto
  then show ?case by simp
qed

lemma eval_rule_shaped:
  assumes "shaped_card c" "shaped_rule r"
  shows "\<exists>out. eval_rule lib c r = Inr out"
proof -
  from assms(2) obtain d where d: "r = JDict d" by (cases r) simp_all
  from assms(2) d obtain s where s: "get_or (JDict d) ''logic'' (JStr ''OR'') = JStr s"
    by (cases "get_or (JDict d) ''logic'' (JStr ''OR'')") (simp_all del: get_or.simps)
  from assms(2) d obtain acts where a: "get_or (JDict d) ''actions'' (JList []) = JList acts"
    by (cases "get_or (JDict d) ''actions'' (JList [])") (simp_all del: get_or.simps)
  have en: "\<exists>out. eval_enabled_rule lib c (JDict d) = Inr out"
  proof (cases "truthy (normalized_groups (JDict d))")
    case False
    then show ?thesis by (simp add: eval_enabled_rule_def)
  next
    case True
    with assms(2) d obtain gs
      where gs: "normalized_groups (JDict d) = JList gs" and ok: "list_all shaped_group gs"
      by (cases "normalized_groups (JDict d)") (simp_all del: get_or.simps)
    from eval_groups_shaped[OF assms(1) ok, of lib]
    obtain rs where "eval_groups lib c gs = Inr rs" ..
    then show ?thesis
      unfolding eval_enabled_rule_def gs s collect_actions_def a by auto
  qed
  then show ?thesis
    unfolding d eval_rule_def by auto
qed

lemma run_rules_shaped:
  "shaped_card c \<Longrightarrow> list_all shaped_rule rules \<Longrightarrow> \<exists>actions. run_rules lib c rules acc = Inr actions"
proof (induction rules arbitrary: acc)
  case Nil
  then show ?case by simp
next
  case (Cons r rules)
  from Cons.prems eval_rule_shaped[of c r lib]
  obtain out where out: "eval_rule lib c r = Inr out" by auto
  from Cons have IH: "\<And>acc. \<exists>actions. run_rules lib c rules acc = Inr actions" by simp
  show ?case
    using out IH by (cases out) simp_all
qed

lemma precompute_wi_shaped:
  assumes "shaped_card (JDict d)"
  shows "\<exists>d'. precompute_wi d = Inr d' \<and> shaped_card (JDict d')"
proof -
  from assms obtain book where book: "get_or (JDict d) ''character_book'' (JDict []) = JDict book"
    by (cases "get_or (JDict d) ''character_book'' (JDict [])") (simp_all del: get_or.simps)
  have keep: "shaped_card (JDict (AList.update ''character_book_content'' v d))" for v
    using assms by (simp add: update_conv')
  show ?thesis
  proof (cases "map_of d ''character_book''")
    case None
    then show ?thesis using assms by (simp add: precompute_wi_def)
  next
    case (Some cb)
    with book have cb: "cb = JDict book" by simp
    show ?thesis
      using Some cb assms keep
      by (auto simp: precompute_wi_def split: option.splits simp del: shaped_card.simps)
  qed
qed

lemma evaluate_shaped:
  assumes "shaped_card c" "shaped_ruleset rs"
  shows "\<exists>actions. snd (evaluate_card lib c rs) = Inr (plan_of actions)"
proof -
  from assms(1) obtain d where c: "c = JDict d" by (cases c) simp_all
  from assms(2) obtain rd where rs: "rs = JDict rd" by (cases rs) simp_all
  from assms(2) rs obtain rules
    where rules: "get_or (JDict rd) ''rules'' (JList []) = JList rules"
      and ok: "list_all shaped_rule rules"
    by (cases "get_or (JDict rd) ''rules'' (JList [])") (simp_all del: get_or.simps)
  from precompute_wi_shaped[of d] assms(1) c
  obtain d' where d': "precompute_wi d = Inr d'" "shaped_card (JDict d')" by auto
  from run_rules_shaped[OF d'(2) ok, of lib "[]"]
  obtain actions where "run_rules lib (JDict d') rules [] = Inr actions" ..
  moreover have "py_get (JDict rd) ''rules'' (JList []) = Inr (JList rules)"
    using rules by simp
  ultimately show ?thesis
    unfolding c rs by (auto simp: d' evaluate_rules_def simp del: py_get.simps)
qed

text \<open>
  Claim C2.  Whatever the card and the ruleset, \<open>evaluate\<close> ends with an action plan or with an
  exception; the ruleset is the one it was given, and the card is the one it was given, except
  that the key \<open>character_book_content\<close> may have been set to the precomputed search text.
  For a card and a ruleset shaped as the data model has them, it ends with an action plan.
\<close>

theorem evaluate_frame:
  "st_ruleset (fst (evaluate lib st)) = st_ruleset st \<and>
   (st_card (fst (evaluate lib st)) = st_card st \<or>
    (\<exists>root text. st_card st = JDict root \<and>
       st_card (fst (evaluate lib st)) =
         JDict (AList.update ''character_book_content'' (JStr text) root))) \<and>
   ((\<exists>e. snd (evaluate lib st) = Inl e) \<or>
    (\<exists>actions. snd (evaluate lib st) = Inr (plan_of actions))) \<and>
   (shaped_card (st_card st) \<and> shaped_ruleset (st_ruleset st) \<longrightarrow>
    (\<exists>actions. snd (evaluate lib st) = Inr (plan_of actions)))"
  using evaluate_card_frame[of lib "st_card st" "st_ruleset st"]
    evaluate_card_result[of lib "st_card st" "st_ruleset st"]
    evaluate_shaped[of "st_card st" "st_ruleset st" lib]
  by (simp add: evaluate_def)

theorem evaluate_frame_witness:
  "shaped_card (JDict lore_root) \<and> shaped_ruleset lore_rules \<and>
   (\<exists>actions. snd (evaluate no_lib \<lparr>st_card = JDict lore_root, st_ruleset = lore_rules\<rparr>) =
      Inr (plan_of actions)) \<and>
   st_ruleset (fst (evaluate no_lib \<lparr>st_card = JDict lore_root, st_ruleset = lore_rules\<rparr>)) =
     lore_rules \<and>
   st_card (fst (evaluate no_lib \<lparr>st_card = JDict lore_root, st_ruleset = lore_rules\<rparr>)) =
     JDict (AList.update ''character_book_content'' (JStr ''lore note'') lore_root)"
proof -
  have c: "shaped_card (JDict lore_root)"
    by (simp add: lore_root_def)
  have r: "shaped_ruleset lore_rules"
    by (simp add: lore_rules_def rule_B_def normalized_groups_def has_key_def)
  have p: "precompute_wi lore_root =
      Inr (AList.update ''character_book_content'' (JStr ''lore note'') lore_root)"
    by (simp add: precompute_wi_def lore_root_def wi_text_def)
  have card: "st_card (fst (evaluate no_lib \<lparr>st_card = JDict lore_root, st_ruleset = lore_rules\<rparr>)) =
     JDict (AList.update ''character_book_content'' (JStr ''lore note'') lore_root)"
    by (simp add: evaluate_def p)
  from evaluate_frame[of no_lib "\<lparr>st_card = JDict lore_root, st_ruleset = lore_rules\<rparr>"] c r card
  show ?thesis by simp
qed

subsection \<open>Order of the collaborator calls\<close>

text \<open>
  Claim C8.  The state of the card library after \<open>apply_plan\<close> is the one the move leaves
  when it is called, with the identifier the plan was applied to, on the state the attribute
  change has left (or on the initial state when the plan changes no attribute); nothing is
  called after the move.  When the move answers failure, the final identifier is the one
  given, no folder is recorded, and the recorded attribute changes are those of the first
  step; when it answers success, the final identifier is the new one.
\<close>

theorem apply_plan_sequencing:
  fixes svc :: "'w card_service"
  defines "after_attributes w card_id p \<equiv>
     (if has_attribute_changes p
      then fst (modify_card_attributes_internal svc w card_id
                  (plan_add_tags p) (plan_remove_tags p) (plan_favorite p))
      else w)"
  shows
    "fst (apply_plan svc w card_id p) =
       (case plan_move p of
          None \<Rightarrow> after_attributes w card_id p
        | Some target \<Rightarrow> fst (move_card_internal svc (after_attributes w card_id p) card_id target)) \<and>
     (plan_move p = None \<longrightarrow> final_id (snd (apply_plan svc w card_id p)) = card_id) \<and>
     (\<forall>target w2 ok new_id msg.
        plan_move p = Some target \<and>
        move_card_internal svc (after_attributes w card_id p) card_id target = (w2, ok, new_id, msg)
        \<longrightarrow>
        final_id (snd (apply_plan svc w card_id p)) = (if ok then new_id else card_id) \<and>
        moved_to (snd (apply_plan svc w card_id p)) = (if ok then Some target else None) \<and>
        tags_added (snd (apply_plan svc w card_id p)) =
          tags_added (snd (apply_attributes svc card_id p (w, initial_result card_id))) \<and>
        tags_removed (snd (apply_plan svc w card_id p)) =
          tags_removed (snd (apply_attributes svc card_id p (w, initial_result card_id))) \<and>
        fav_changed (snd (apply_plan svc w card_id p)) =
          fav_changed (snd (apply_attributes svc card_id p (w, initial_result card_id))))"
proof -
  obtain w1 res1 where s1: "apply_attributes svc card_id p (w, initial_result card_id) = (w1, res1)"
    by (cases "apply_attributes svc card_id p (w, initial_result card_id)")
  have w1: "w1 = after_attributes w card_id p"
  proof (cases "has_attribute_changes p")
    case True
    obtain w' ok' where m: "modify_card_attributes_internal svc w card_id
        (plan_add_tags p) (plan_remove_tags p) (plan_favorite p) = (w', ok')"
      by (cases "modify_card_attributes_internal svc w card_id
        (plan_add_tags p) (plan_remove_tags p) (plan_favorite p)")
    with True s1 show ?thesis by (simp add: apply_attributes_def after_attributes_def)
  next
    case False
    with s1 show ?thesis by (simp add: apply_attributes_def after_attributes_def)
  qed
  have id1: "final_id res1 = card_id"
  proof (cases "has_attribute_changes p")
    case True
    obtain w' ok' where m: "modify_card_attributes_internal svc w card_id
        (plan_add_tags p) (plan_remove_tags p) (plan_favorite p) = (w', ok')"
      by (cases "modify_card_attributes_internal svc w card_id
        (plan_add_tags p) (plan_remove_tags p) (plan_favorite p)")
    with True s1 show ?thesis by (auto simp: apply_attributes_def initial_result_def split: if_splits)
  next
    case False
    with s1 show ?thesis by (auto simp: apply_attributes_def initial_result_def)
  qed
  have none1: "moved_to res1 = None"
  proof (cases "has_attribute_changes p")
    case True
    obtain w' ok' where m: "modify_card_attributes_internal svc w card_id
        (plan_add_tags p) (plan_remove_tags p) (plan_favorite p) = (w', ok')"
      by (cases "modify_card_attributes_internal svc w card_id
        (plan_add_tags p) (plan_remove_tags p) (plan_favorite p)")
    with True s1 show ?thesis by (auto simp: apply_attributes_def initial_result_def split: if_splits)
  next
    case False
    with s1 show ?thesis by (auto simp: apply_attributes_def initial_result_def)
  qed
  show ?thesis
  proof (cases "plan_move p")
    case None
    then show ?thesis
      by (simp add: apply_plan_def apply_move_def s1 w1 id1)
  next
    case (Some target)
    obtain w2 ok new_id msg
      where mv: "move_card_internal svc w1 card_id target = (w2, ok, new_id, msg)"
      by (cases "move_card_internal svc w1 card_id target") auto
    with Some show ?thesis
      using w1 by (auto simp: apply_plan_def apply_move_def s1 id1 none1)
  qed
qed

theorem apply_plan_sequencing_witness:
  "plan_move tag_and_move = Some ''Folder'' \<and>
   move_card_internal log_service [''modify card.png''] ''card.png'' ''Folder'' =
     ([''modify card.png'', ''move card.png''], False, ''moved.png'', ''denied'') \<and>
   fst (apply_plan log_service [] ''card.png'' tag_and_move) = [''modify card.png'', ''move card.png''] \<and>
   final_id (snd (apply_plan log_service [] ''card.png'' tag_and_move)) = ''card.png'' \<and>
   moved_to (snd (apply_plan log_service [] ''card.png'' tag_and_move)) = None \<and>
   tags_added (snd (apply_plan log_service [] ''card.png'' tag_and_move)) = [''x'']"
proof -
  have a: "has_attribute_changes tag_and_move"
    by (simp add: has_attribute_changes_def tag_and_move_def)
  have m: "plan_move tag_and_move = Some ''Folder''"
    by (simp add: tag_and_move_def)
  have w1: "fst (modify_card_attributes_internal log_service [] ''card.png''
              (plan_add_tags tag_and_move) (plan_remove_tags tag_and_move)
              (plan_favorite tag_and_move)) = [''modify card.png'']"
    by (simp add: log_service_def)
  have mv: "move_card_internal log_service [''modify card.png''] ''card.png'' ''Folder'' =
     ([''modify card.png'', ''move card.png''], False, ''moved.png'', ''denied'')"
    by (simp add: log_service_def)
  have t: "tags_added (snd (apply_attributes log_service ''card.png'' tag_and_move
             ([], initial_result ''card.png''))) = [''x'']"
    by (simp add: apply_attributes_def has_attribute_changes_def log_service_def tag_and_move_def)
  from a m w1 mv t apply_plan_sequencing[of log_service "[]" "''card.png''" tag_and_move]
  show ?thesis by auto
qed

subsection \<open>Saving a ruleset under its own name\<close>

lemma with_metadata_meta: "map_of (with_metadata d) ''meta'' = map_of d ''meta''"
  by (simp add: with_metadata_def update_conv')

lemma sanitize_filename_nonempty: "sanitize_filename lib name \<noteq> []"
  by (simp add: sanitize_filename_def)

text \<open>
  An empty old id never equals a sanitized name without regard to case: the sanitized name is
  not empty, and \<open>lower\<close> maps only the empty string to the empty string.  In the model this
  is a fact for the names in ASCII, where \<open>lower\<close> is computed.
\<close>

lemma same_name_ascii_nonempty:
  assumes "is_ascii (sanitize_filename lib name)"
    and "py_lower lib old = py_lower lib (sanitize_filename lib name)"
  shows "old \<noteq> []"
proof
  assume "old = []"
  with assms have "map lower_char (sanitize_filename lib name) = []"
    by (simp add: py_lower_def is_ascii_def)
  then show False
    by (simp add: sanitize_filename_nonempty)
qed

text \<open>
  Claim C10.  Let \<open>old\<close> be the old ruleset id, a file name and so not empty (the source takes
  an empty or missing old id for a new ruleset), and let the sanitized display name equal it
  without regard to case, under \<open>str.lower\<close> as the library computes it, ASCII or not.  Then
  the save returns the old id in its own spelling, whatever files exist: the document is
  written under the old id with its \<open>id\<close> field set to it, no other file changes, and the
  active ruleset stays.  The search for a free name is not entered, so the call returns.
\<close>

theorem save_ruleset_same_name:
  assumes "py_get (get_or (JDict d) ''meta'' (JDict [])) ''name'' (JStr ''Untitled'') = Inr meta_name"
    and "old \<noteq> []"
    and "py_lower lib old = py_lower lib (sanitize_filename lib meta_name)"
  shows "save_ruleset lib st (Some old) (JDict d) =
     Some (Inr (old, st\<lparr>rule_files :=
        (rule_files st)(old \<mapsto> JDict (AList.update ''id'' (JStr old) (with_metadata d)))\<rparr>))"
proof -
  have meta: "get_or (JDict (with_metadata d)) ''meta'' (JDict []) = get_or (JDict d) ''meta'' (JDict [])"
    by (simp add: with_metadata_meta)
  have same: "same_name lib (Some old) (sanitize_filename lib meta_name)"
    using assms(2,3) by (simp add: same_name_def)
  have "store_as (Some old) (with_metadata d) st old =
      (old, st\<lparr>rule_files :=
        (rule_files st)(old \<mapsto> JDict (AList.update ''id'' (JStr old) (with_metadata d)))\<rparr>)"
    by (simp add: store_as_def update_config_def write_ruleset_def remove_old_def is_rename_def)
  then show ?thesis
    using assms(1) same by (simp add: meta choose_id_def del: get_or.simps)
qed

lemma my_rules_name: "sanitize_filename no_lib (JStr '' myrules '') = ''myrules''"
  by (simp add: sanitize_filename_def replace_illegal_def illegal_chars_def str_eval)

lemma accent_name: "sanitize_filename latin_lib (JStr a_grave_b) = a_grave_b"
  by (simp add: sanitize_filename_def replace_illegal_def illegal_chars_def str_eval
      a_grave_b_def latin_lib_def no_lib_def)

theorem save_ruleset_same_name_witness:
  "py_get (get_or (JDict my_rules) ''meta'' (JDict [])) ''name'' (JStr ''Untitled'') = Inr (JStr '' myrules '') \<and>
   py_lower no_lib ''MyRules'' = py_lower no_lib (sanitize_filename no_lib (JStr '' myrules '')) \<and>
   rule_files two_files ''MyRules'' \<noteq> None \<and> rule_files two_files ''myrules'' \<noteq> None \<and>
   save_ruleset no_lib two_files (Some ''MyRules'') (JDict my_rules) =
     Some (Inr (''MyRules'', two_files\<lparr>rule_files :=
        (rule_files two_files)(''MyRules'' \<mapsto>
           JDict (AList.update ''id'' (JStr ''MyRules'') (with_metadata my_rules)))\<rparr>)) \<and>
   py_lower latin_lib A_grave_B = py_lower latin_lib (sanitize_filename latin_lib (JStr a_grave_b)) \<and>
   A_grave_B \<noteq> a_grave_b \<and>
   save_ruleset latin_lib accent_files (Some A_grave_B) (JDict accent_rules) =
     Some (Inr (A_grave_B, accent_files\<lparr>rule_files :=
        (rule_files accent_files)(A_grave_B \<mapsto>
           JDict (AList.update ''id'' (JStr A_grave_B) (with_metadata accent_rules)))\<rparr>))"
proof -
  have a: "py_get (get_or (JDict my_rules) ''meta'' (JDict [])) ''name'' (JStr ''Untitled'') =
      Inr (JStr '' myrules '')"
    by (simp add: my_rules_def)
  have b: "py_lower no_lib ''MyRules'' = py_lower no_lib (sanitize_filename no_lib (JStr '' myrules ''))"
    by (simp add: my_rules_name str_eval)
  have c: "rule_files two_files ''MyRules'' \<noteq> None" "rule_files two_files ''myrules'' \<noteq> None"
    by (simp_all add: two_files_def)
  have n: "''MyRules'' \<noteq> []" "A_grave_B \<noteq> []" "A_grave_B \<noteq> a_grave_b"
    by (simp_all add: A_grave_B_def a_grave_b_def)
  have a': "py_get (get_or (JDict accent_rules) ''meta'' (JDict [])) ''name'' (JStr ''Untitled'') =
      Inr (JStr a_grave_b)"
    by (simp add: accent_rules_def)
  have b': "py_lower latin_lib A_grave_B = py_lower latin_lib (sanitize_filename latin_lib (JStr a_grave_b))"
    unfolding accent_name
    by (simp add: py_lower_def is_ascii_def latin_lib_def no_lib_def A_grave_B_def a_grave_b_def)
  from save_ruleset_same_name[OF a n(1) b, of two_files]
    save_ruleset_same_name[OF a' n(2) b', of accent_files] a b c b' n(3)
  show ?thesis by blast
qed

end
